theory Spec2Isabelle
  imports Complex_Main
begin

text \<open>
  The code blocks of Primer Spec: a model of \<open>useEnhancedCodeBlocks.tsx\<close>, the hook that
  replaces the preformatted code of a rendered page by tables with line numbers,
  highlighted lines, line selection and a copy button. The definitions follow the source
  function by function; the properties proved about them come after all definitions.
\<close>

section \<open>Strings and numbers of the host language\<close>

text \<open>
  The source is TypeScript. Its strings are modelled as \<open>string\<close>; a \<open>char\<close> stands for
  one code unit below 256, so the white space of the language is the seven characters
  TAB, LF, VT, FF, CR, SP and NBSP.

  \<open>String.prototype.split\<close> with a one-character separator: the empty string splits
  into one empty piece.
\<close>

fun split :: "char \<Rightarrow> string \<Rightarrow> string list" where
  "split sep [] = [[]]"
| "split sep (c # cs) =
     (if c = sep then [] # split sep cs
      else (case split sep cs of
              [] \<Rightarrow> [[c]]
            | piece # pieces \<Rightarrow> (c # piece) # pieces))"

definition isStrWhiteSpaceChar :: "char \<Rightarrow> bool" where
  "isStrWhiteSpaceChar c \<longleftrightarrow>
     c = CHR 0x09 \<or> c = CHR 0x0A \<or> c = CHR 0x0B \<or> c = CHR 0x0C \<or> c = CHR 0x0D
     \<or> c = CHR 0x20 \<or> c = CHR 0xA0"

text \<open>\<open>String.prototype.trim\<close>.\<close>

definition trim :: "string \<Rightarrow> string" where
  "trim s = rev (dropWhile isStrWhiteSpaceChar (rev (dropWhile isStrWhiteSpaceChar s)))"

text \<open>
  A \<open>number\<close> is an IEEE 754 double: \<open>NaN\<close>, one of the two infinities, or a finite value,
  held as the rational that the double stands for (the sign of zero is not kept: the
  comparisons and the set of the parser do not see it).

  \<open>roundDouble\<close> is the rounding of a real value to the nearest double, ties to the even
  significand: 53 bits of precision, the least exponent of the unit in the last place
  \<open>-1074\<close>, and an infinity when the rounded value has a binary exponent of \<open>1024\<close> or
  more. \<open>binExp x\<close> is the exponent of the largest power of two that is at most \<open>x\<close>, for
  positive \<open>x\<close>.
\<close>

datatype jsnum = NaN | Num rat | PosInfinity | NegInfinity

definition pow2 :: "int \<Rightarrow> rat" where
  "pow2 e = (if 0 \<le> e then 2 ^ nat e else 1 / 2 ^ nat (- e))"

function expUp :: "rat \<Rightarrow> int" where
  "expUp x = (if x < 2 then 0 else 1 + expUp (x / 2))"
  by pat_completeness auto
termination
proof (relation "measure (\<lambda>x. nat \<lfloor>x\<rfloor>)")
  show "wf (measure (\<lambda>x. nat \<lfloor>x\<rfloor>))"
    by simp
next
  fix x :: rat
  assume "\<not> x < 2"
  then have x: "2 \<le> x" by simp
  then have "x / 2 \<le> x - 1" by simp
  then have "\<lfloor>x / 2\<rfloor> \<le> \<lfloor>x - 1\<rfloor>" by (rule floor_mono)
  also have "\<lfloor>x - 1\<rfloor> = \<lfloor>x\<rfloor> - 1" by (simp only: floor_diff_one)
  finally have a: "\<lfloor>x / 2\<rfloor> \<le> \<lfloor>x\<rfloor> - 1" .
  have "2 \<le> \<lfloor>x\<rfloor>" using x by (simp add: le_floor_iff)
  with a have "nat \<lfloor>x / 2\<rfloor> < nat \<lfloor>x\<rfloor>" by linarith
  then show "(x / 2, x) \<in> measure (\<lambda>x. nat \<lfloor>x\<rfloor>)"
    by (simp only: in_measure)
qed

declare expUp.simps [simp del]

definition binExp :: "rat \<Rightarrow> int" where
  "binExp x =
     (if 1 \<le> x then expUp x
      else let k = expUp (1 / x) in if pow2 k = 1 / x then - k else - k - 1)"

definition roundHalfEven :: "rat \<Rightarrow> int" where
  "roundHalfEven q =
     (let f = \<lfloor>q\<rfloor>; d = q - of_int f
      in if d < 1 / 2 then f
         else if 1 / 2 < d then f + 1
         else if even f then f else f + 1)"

definition roundDouble :: "rat \<Rightarrow> jsnum" where
  "roundDouble x =
     (if x = 0 then Num 0
      else
        let a = \<bar>x\<bar>;
            ulp = pow2 (max (binExp a - 52) (- 1074));
            y = of_int (roundHalfEven (a / ulp)) * ulp
        in if 0 < y \<and> 1024 \<le> binExp y then (if 0 < x then PosInfinity else NegInfinity)
           else Num (if 0 < x then y else - y))"

definition isNaN :: "jsnum \<Rightarrow> bool" where
  "isNaN n \<longleftrightarrow> n = NaN"

text \<open>The comparison \<open><=\<close> of two numbers; \<open>>=\<close> is the same with the sides exchanged.\<close>

fun num_le :: "jsnum \<Rightarrow> jsnum \<Rightarrow> bool" where
  "num_le NaN b = False"
| "num_le a NaN = False"
| "num_le NegInfinity b = True"
| "num_le a PosInfinity = True"
| "num_le PosInfinity b = False"
| "num_le a NegInfinity = False"
| "num_le (Num x) (Num y) = (x \<le> y)"

definition num_ge :: "jsnum \<Rightarrow> jsnum \<Rightarrow> bool" where
  "num_ge a b = num_le b a"

text \<open>\<open>++i\<close> on a number: the sum with one, rounded.\<close>

fun increment :: "jsnum \<Rightarrow> jsnum" where
  "increment (Num x) = roundDouble (x + 1)"
| "increment n = n"

text \<open>
  The unary \<open>+\<close> on a string is the language's \<open>StringToNumber\<close>: white space is
  trimmed, the empty string is \<open>0\<close>, and the rest must be one \<open>StrNumericLiteral\<close>, that
  is a signed decimal literal (digits, an optional fraction, an optional exponent, or
  \<open>Infinity\<close>) or an unsigned binary, octal or hexadecimal integer literal; anything else is
  \<open>NaN\<close>. The value of a literal is rounded to the nearest double. (The language lets an
  engine cut a decimal literal after its 20th significant digit before rounding; the
  literals of the examples are not affected.)
\<close>

definition digitOf :: "char \<Rightarrow> nat option" where
  "digitOf c =
     (let n = (of_char c :: nat) in
      if 48 \<le> n \<and> n \<le> 57 then Some (n - 48)
      else if 97 \<le> n \<and> n \<le> 102 then Some (n - 87)
      else if 65 \<le> n \<and> n \<le> 70 then Some (n - 55)
      else None)"

definition isDecimalDigit :: "char \<Rightarrow> bool" where
  "isDecimalDigit c \<longleftrightarrow> (case digitOf c of Some d \<Rightarrow> d < 10 | None \<Rightarrow> False)"

text \<open>The value of a non-empty run of digits in a base; \<open>None\<close> when it is not one.\<close>

definition digitsValue :: "nat \<Rightarrow> string \<Rightarrow> int option" where
  "digitsValue base ds =
     (if ds = [] then None
      else fold (\<lambda>c acc. case (acc, digitOf c) of
                   (Some a, Some d) \<Rightarrow> if d < base then Some (a * int base + int d) else None
                 | _ \<Rightarrow> None) ds (Some 0))"

definition nonDecimalIntegerLiteral :: "string \<Rightarrow> int option" where
  "nonDecimalIntegerLiteral t =
     (case t of
        z # p # ds \<Rightarrow>
          if z \<noteq> CHR ''0'' then None
          else if p = CHR ''b'' \<or> p = CHR ''B'' then digitsValue 2 ds
          else if p = CHR ''o'' \<or> p = CHR ''O'' then digitsValue 8 ds
          else if p = CHR ''x'' \<or> p = CHR ''X'' then digitsValue 16 ds
          else None
      | _ \<Rightarrow> None)"

text \<open>\<open>SignedInteger\<close> of an exponent part.\<close>

definition signedInteger :: "string \<Rightarrow> int option" where
  "signedInteger t =
     (case t of
        [] \<Rightarrow> None
      | c # ds \<Rightarrow>
          if c = CHR ''+'' then digitsValue 10 ds
          else if c = CHR ''-'' then map_option uminus (digitsValue 10 ds)
          else digitsValue 10 t)"

definition exponentPart :: "string \<Rightarrow> int option" where
  "exponentPart t =
     (case t of
        [] \<Rightarrow> Some 0
      | c # r \<Rightarrow> if c = CHR ''e'' \<or> c = CHR ''E'' then signedInteger r else None)"

definition scale10 :: "rat \<Rightarrow> int \<Rightarrow> rat" where
  "scale10 m e = (if 0 \<le> e then m * 10 ^ nat e else m / 10 ^ nat (- e))"

definition strUnsignedDecimalLiteral :: "string \<Rightarrow> jsnum" where
  "strUnsignedDecimalLiteral t =
     (if t = ''Infinity'' then PosInfinity
      else
        let ip = takeWhile isDecimalDigit t;
            r1 = dropWhile isDecimalDigit t;
            dot = (r1 \<noteq> [] \<and> hd r1 = CHR ''.'');
            fp = (if dot then takeWhile isDecimalDigit (tl r1) else []);
            r2 = (if dot then dropWhile isDecimalDigit (tl r1) else r1)
        in if ip = [] \<and> fp = [] then NaN
           else case (digitsValue 10 (CHR ''0'' # ip @ fp), exponentPart r2) of
                  (Some m, Some e) \<Rightarrow> roundDouble (scale10 (of_int m) (e - int (length fp)))
                | _ \<Rightarrow> NaN)"

definition neg :: "jsnum \<Rightarrow> jsnum" where
  "neg n = (case n of NaN \<Rightarrow> NaN | Num x \<Rightarrow> Num (- x)
            | PosInfinity \<Rightarrow> NegInfinity | NegInfinity \<Rightarrow> PosInfinity)"

definition strDecimalLiteral :: "string \<Rightarrow> jsnum" where
  "strDecimalLiteral t =
     (case t of
        [] \<Rightarrow> NaN
      | c # r \<Rightarrow>
          if c = CHR ''+'' then strUnsignedDecimalLiteral r
          else if c = CHR ''-'' then neg (strUnsignedDecimalLiteral r)
          else strUnsignedDecimalLiteral t)"

definition toNumber :: "string \<Rightarrow> jsnum" where
  "toNumber s =
     (let t = trim s in
      if t = [] then Num 0
      else case nonDecimalIntegerLiteral t of
             Some n \<Rightarrow> roundDouble (of_int n)
           | None \<Rightarrow> strDecimalLiteral t)"

section \<open>The range parser\<close>

text \<open>\<open>isNumWithinInclusiveRange(num, lower, upper)\<close>: \<open>num\<close> is \<open>number | null\<close>.\<close>

definition isNumWithinInclusiveRange :: "jsnum option \<Rightarrow> jsnum \<Rightarrow> jsnum \<Rightarrow> bool" where
  "isNumWithinInclusiveRange num lower upper =
     (case num of
        None \<Rightarrow> False
      | Some n \<Rightarrow> \<not> isNaN n \<and> num_ge n lower \<and> num_le n upper)"

text \<open>
  The inner loop \<open>for (let i = lower; i <= upper; ++i) highlightedLines.add(i)\<close>. From
  \<open>2^53\<close> on the increment of a double gives the double back, and the loop does not end:
  the result is \<open>None\<close> where the loop does not return.
\<close>

partial_function (option) highlightLoop :: "jsnum \<Rightarrow> jsnum \<Rightarrow> jsnum set \<Rightarrow> jsnum set option" where
  "highlightLoop i upper highlightedLines =
     (if num_le i upper then highlightLoop (increment i) upper (insert i highlightedLines)
      else Some highlightedLines)"

declare highlightLoop.simps [code]

text \<open>
  The body of \<open>ranges.forEach\<close>: one comma-separated token (the source's \<open>range\<close>), and
  the set built so far.
\<close>

definition rangeStep :: "jsnum \<Rightarrow> string \<Rightarrow> jsnum set \<Rightarrow> jsnum set option" where
  "rangeStep maxLineNumber token highlightedLines =
     (let potentialLineNum = toNumber token in
      if isNumWithinInclusiveRange (Some potentialLineNum) (Num 1) maxLineNumber then
        Some (insert potentialLineNum highlightedLines)
      else
        let rangeParts = split CHR ''-'' (trim token) in
        if length rangeParts = 2 then
          (let lower = toNumber (rangeParts ! 0);
               upper = toNumber (rangeParts ! 1)
           in if isNumWithinInclusiveRange (Some lower) (Num 1) maxLineNumber
                 \<and> isNumWithinInclusiveRange (Some upper) (Num 1) maxLineNumber
                 \<and> num_le lower upper
              then highlightLoop lower upper highlightedLines
              else Some highlightedLines)
        else Some highlightedLines)"

text \<open>
  The three ways in which a call can end: it returns a value, it throws an error, or it
  does not return. \<open>returned\<close> is the value of a call that returns.
\<close>

datatype 'a outcome = Returns 'a | Throws string | Diverges

fun returned :: "'a outcome \<Rightarrow> 'a" where
  "returned (Returns x) = x"

text \<open>
  \<open>parseCodeHighlightRanges(rawHighlightRanges, maxLineNumber)\<close>: the first argument is
  \<open>string | null\<close>; \<open>null\<close> and the empty string are both falsy, and the guard on them
  comes before the call of \<open>split\<close>, which throws a \<open>TypeError\<close> on \<open>null\<close>. No other
  operation of the function can throw. The call does not return when its loop does not.
\<close>

definition parseCodeHighlightRanges :: "string option \<Rightarrow> jsnum \<Rightarrow> jsnum set outcome" where
  "parseCodeHighlightRanges rawHighlightRanges maxLineNumber =
     (if rawHighlightRanges = None \<or> rawHighlightRanges = Some [] then Returns {}
      else
        (case rawHighlightRanges of
           None \<Rightarrow> Throws ''TypeError''
         | Some s \<Rightarrow>
             (case fold (\<lambda>token highlightedLines.
                          Option.bind highlightedLines (rangeStep maxLineNumber token))
                     (split CHR '','' s) (Some {}) of
                Some highlightedLines \<Rightarrow> Returns highlightedLines
              | None \<Rightarrow> Diverges)))"

subsection \<open>The reference algorithm of the specification\<close>

text \<open>
  Section 4.1 of the specification, in its own words: a token that parses as a number
  accepted within \<open>[1, max]\<close> gives that number; otherwise the trimmed token is split on
  the hyphen into exactly two parts, and if both parse as accepted numbers within
  \<open>[1, max]\<close> with \<open>lower \<le> upper\<close>, the token gives the numbers between them; any other
  token gives nothing. Two things are parameters. Which numbers are accepted: the
  specification says the finite ones within \<open>[1, max]\<close>, the code takes every number
  within \<open>[1, max]\<close> that is not \<open>NaN\<close>. What "between" means: the specification says
  every integer in \<open>[lower, upper]\<close>, the loop of the code counts up from \<open>lower\<close> by
  increments of a double as long as the value is at most \<open>upper\<close>.
\<close>

definition finiteWithin :: "jsnum \<Rightarrow> jsnum \<Rightarrow> bool" where
  "finiteWithin maxLineNumber n =
     (case n of Num x \<Rightarrow> num_le (Num 1) n \<and> num_le n maxLineNumber | _ \<Rightarrow> False)"

definition numberWithin :: "jsnum \<Rightarrow> jsnum \<Rightarrow> bool" where
  "numberWithin maxLineNumber n \<longleftrightarrow> n \<noteq> NaN \<and> num_le (Num 1) n \<and> num_le n maxLineNumber"

definition integersBetween :: "jsnum \<Rightarrow> jsnum \<Rightarrow> jsnum set" where
  "integersBetween lower upper =
     (case (lower, upper) of
        (Num l, Num u) \<Rightarrow> (\<lambda>k. Num (of_int k)) ` {\<lceil>l\<rceil> .. \<lfloor>u\<rfloor>}
      | _ \<Rightarrow> {})"

definition stepsFrom :: "jsnum \<Rightarrow> jsnum \<Rightarrow> jsnum set" where
  "stepsFrom lower upper =
     {(increment ^^ k) lower |k. \<forall>j \<le> k. num_le ((increment ^^ j) lower) upper}"

definition tokenLines :: "(jsnum \<Rightarrow> bool) \<Rightarrow> (jsnum \<Rightarrow> jsnum \<Rightarrow> jsnum set) \<Rightarrow> string \<Rightarrow> jsnum set" where
  "tokenLines accepted between tok =
     (if accepted (toNumber tok) then {toNumber tok}
      else
        (case split CHR ''-'' (trim tok) of
           [a, b] \<Rightarrow>
             if accepted (toNumber a) \<and> accepted (toNumber b) \<and> num_le (toNumber a) (toNumber b)
             then between (toNumber a) (toNumber b)
             else {}
         | _ \<Rightarrow> {}))"

definition parseRanges ::
  "(jsnum \<Rightarrow> bool) \<Rightarrow> (jsnum \<Rightarrow> jsnum \<Rightarrow> jsnum set) \<Rightarrow> string option \<Rightarrow> jsnum set" where
  "parseRanges accepted between raw =
     (case raw of
        None \<Rightarrow> {}
      | Some s \<Rightarrow>
          if s = [] then {}
          else (\<Union>tok \<in> set (split CHR '','' s). tokenLines accepted between tok))"

definition parseRanges_spec :: "string option \<Rightarrow> jsnum \<Rightarrow> jsnum set" where
  "parseRanges_spec raw maxLineNumber = parseRanges (finiteWithin maxLineNumber) integersBetween raw"

definition parseRanges_amended :: "string option \<Rightarrow> jsnum \<Rightarrow> jsnum set" where
  "parseRanges_amended raw maxLineNumber = parseRanges (numberWithin maxLineNumber) stepsFrom raw"

text \<open>
  A token is well formed for a maximum when it is a number within \<open>[1, max]\<close>, or two
  such numbers around one hyphen, the first at most the second; every other token is
  malformed or out of range.
\<close>

definition wellFormedToken :: "jsnum \<Rightarrow> string \<Rightarrow> bool" where
  "wellFormedToken maxLineNumber tok \<longleftrightarrow>
     numberWithin maxLineNumber (toNumber tok)
     \<or> (case split CHR ''-'' (trim tok) of
           [a, b] \<Rightarrow> numberWithin maxLineNumber (toNumber a) \<and> numberWithin maxLineNumber (toNumber b)
                      \<and> num_le (toNumber a) (toNumber b)
         | _ \<Rightarrow> False)"

text \<open>\<open>Number.MAX_SAFE_INTEGER\<close>, that is \<open>2^53 - 1\<close>.\<close>

definition MAX_SAFE_INTEGER :: rat where
  "MAX_SAFE_INTEGER = 9007199254740991"


text \<open>
  A maximum is safe when it is \<open>NaN\<close> or at most \<open>Number.MAX_SAFE_INTEGER\<close>; the length of
  an array is (it is below \<open>2^32\<close>).
\<close>

definition safeMax :: "jsnum \<Rightarrow> bool" where
  "safeMax maxLineNumber \<longleftrightarrow> isNaN maxLineNumber \<or> num_le maxLineNumber (Num MAX_SAFE_INTEGER)"

section \<open>The document\<close>

text \<open>
  A DOM node is an element (local name, attributes in order, children), a text node or a
  comment. Event handlers are properties, not part of the tree, and are left out.
\<close>

datatype node =
    Element string "(string \<times> string) list" "node list"
  | Text string
  | Comment string

fun isElementNode :: "node \<Rightarrow> bool" where
  "isElementNode (Element t as cs) = True"
| "isElementNode n = False"

fun childNodes :: "node \<Rightarrow> node list" where
  "childNodes (Element t as cs) = cs"
| "childNodes n = []"

definition toUpperChar :: "char \<Rightarrow> char" where
  "toUpperChar c =
     (case map_of (zip ''abcdefghijklmnopqrstuvwxyz'' ''ABCDEFGHIJKLMNOPQRSTUVWXYZ'') c of
        Some u \<Rightarrow> u
      | None \<Rightarrow> c)"

text \<open>
  \<open>tagName\<close> of an element of an HTML document is its name in ASCII upper case; other
  nodes have no such property (\<open>undefined\<close>).
\<close>

fun tagName :: "node \<Rightarrow> string option" where
  "tagName (Element t as cs) = Some (map toUpperChar t)"
| "tagName n = None"

fun getAttribute :: "node \<Rightarrow> string \<Rightarrow> string option" where
  "getAttribute (Element t as cs) name = map_of as name"
| "getAttribute n name = None"

text \<open>\<open>textContent\<close>: the text of the node, for an element that of its descendants.\<close>

fun textContent :: "node \<Rightarrow> string" where
  "textContent (Element t as cs) =
     concat (map (\<lambda>c. case c of Comment d \<Rightarrow> [] | _ \<Rightarrow> textContent c) cs)"
| "textContent (Text d) = d"
| "textContent (Comment d) = d"

text \<open>\<open>cloneNode()\<close> copies the node without its children; \<open>cloneNode(true)\<close> is the node itself, as a value.\<close>

fun cloneNode :: "node \<Rightarrow> node" where
  "cloneNode (Element t as cs) = Element t as []"
| "cloneNode n = n"

text \<open>Setting \<open>textContent\<close> to a non-empty string leaves one text node.\<close>

fun setTextContent :: "node \<Rightarrow> string \<Rightarrow> node" where
  "setTextContent (Element t as cs) s = Element t as (if s = [] then [] else [Text s])"
| "setTextContent (Text d) s = Text s"
| "setTextContent (Comment d) s = Comment s"

fun appendChild :: "node \<Rightarrow> node \<Rightarrow> node" where
  "appendChild (Element t as cs) c = Element t as (cs @ [c])"
| "appendChild n c = n"

subsection \<open>Serialisation (\<open>innerHTML\<close>)\<close>

definition escapeText :: "string \<Rightarrow> string" where
  "escapeText s = concat (map (\<lambda>c.
     if c = CHR ''&'' then ''&amp;''
     else if c = CHR 0xA0 then ''&nbsp;''
     else if c = CHR ''<'' then ''&lt;''
     else if c = CHR ''>'' then ''&gt;''
     else [c]) s)"

definition escapeAttribute :: "string \<Rightarrow> string" where
  "escapeAttribute s = concat (map (\<lambda>c.
     if c = CHR ''&'' then ''&amp;''
     else if c = CHR 0xA0 then ''&nbsp;''
     else if c = CHR 0x22 then ''&quot;''
     else [c]) s)"

definition voidElements :: "string list" where
  "voidElements = [''area'', ''base'', ''basefont'', ''bgsound'', ''br'', ''col'', ''embed'',
     ''frame'', ''hr'', ''img'', ''input'', ''keygen'', ''link'', ''meta'', ''param'',
     ''source'', ''track'', ''wbr'']"

definition rawTextElements :: "string list" where
  "rawTextElements = [''style'', ''script'', ''xmp'', ''iframe'', ''noembed'', ''noframes'',
     ''plaintext'', ''noscript'']"

definition serializeAttributes :: "(string \<times> string) list \<Rightarrow> string" where
  "serializeAttributes as =
     concat (map (\<lambda>(name, v). '' '' @ name @ ''='' @ [CHR 0x22] @ escapeAttribute v @ [CHR 0x22]) as)"

text \<open>The serialisation of a node that is a child of an element named \<open>parent\<close>.\<close>

fun serialize :: "string \<Rightarrow> node \<Rightarrow> string" where
  "serialize parent (Element t as cs) =
     ''<'' @ t @ serializeAttributes as @ ''>'' @
     (if t \<in> set voidElements then []
      else concat (map (serialize t) cs) @ ''</'' @ t @ ''>'')"
| "serialize parent (Text d) = (if parent \<in> set rawTextElements then d else escapeText d)"
| "serialize parent (Comment d) = ''<!--'' @ d @ ''-->''"

fun innerHTML :: "node \<Rightarrow> string" where
  "innerHTML (Element t as cs) = concat (map (serialize t) cs)"
| "innerHTML n = []"

section \<open>Content extraction\<close>

text \<open>
  The inner \<open>lines.forEach((line, i) => ...)\<close> of \<open>getCodeblockContents\<close>: \<open>i\<close> counts
  the lines done, \<open>n\<close> is \<open>lines.length\<close>.
\<close>

fun appendLines :: "node \<Rightarrow> nat \<Rightarrow> nat \<Rightarrow> string list \<Rightarrow> node \<Rightarrow> node" where
  "appendLines childNode n i [] resultNode = resultNode"
| "appendLines childNode n i (line # lines) resultNode =
     (let r1 = (if line \<noteq> [] then appendChild resultNode (setTextContent (cloneNode childNode) line)
                else resultNode);
          r2 = (if i < n - 1 then appendChild r1 (Text [CHR 0x0A]) else r1)
      in appendLines childNode n (Suc i) lines r2)"

text \<open>
  The body of \<open>codeEl.childNodes.forEach\<close>. (The second test of the source,
  \<open>childNode.textContent != null\<close>, holds for every element.)
\<close>

definition extractChild :: "node \<Rightarrow> node \<Rightarrow> node" where
  "extractChild childNode resultNode =
     (if isElementNode childNode then
        (if tagName childNode = Some ''SPAN'' then
           (let lines = split (CHR 0x0A) (textContent childNode)
            in appendLines childNode (length lines) 0 lines resultNode)
         else resultNode)
      else appendChild resultNode childNode)"

definition getCodeblockContents :: "node \<Rightarrow> string" where
  "getCodeblockContents codeEl =
     innerHTML (fold extractChild (childNodes codeEl) (cloneNode codeEl))"


text \<open>\<open>Array.prototype.join\<close> of strings (and of lists in general).\<close>

fun joinWith :: "'a list \<Rightarrow> 'a list list \<Rightarrow> 'a list" where
  "joinWith sep [] = []"
| "joinWith sep [x] = x"
| "joinWith sep (x # y # r) = x @ sep @ joinWith sep (y # r)"

subsection \<open>The extraction algorithm of the specification\<close>

text \<open>
  Section 4.2 of the specification, in its own words: for each qualifying element child
  the text content is split on newlines, each non-empty segment is wrapped in a shallow
  clone of the element, and a newline text node stands between segments; a non-element
  child is cloned as it is. Which elements qualify is a parameter: the specification says
  the inline elements, the code tests for \<open>SPAN\<close>.
\<close>

definition inlineElements :: "string list" where
  "inlineElements = [''a'', ''abbr'', ''b'', ''cite'', ''code'', ''em'', ''i'', ''kbd'',
     ''mark'', ''q'', ''s'', ''samp'', ''small'', ''span'', ''strong'', ''sub'', ''sup'',
     ''u'', ''var'']"

definition spanPieces :: "node \<Rightarrow> node list" where
  "spanPieces el =
     joinWith [Text [CHR 0x0A]]
       (map (\<lambda>segment. if segment = [] then [] else [setTextContent (cloneNode el) segment])
          (split (CHR 0x0A) (textContent el)))"

definition childPieces :: "(node \<Rightarrow> bool) \<Rightarrow> node \<Rightarrow> node list" where
  "childPieces qualifies c =
     (if isElementNode c then (if qualifies c then spanPieces c else []) else [c])"

definition extractContents :: "(node \<Rightarrow> bool) \<Rightarrow> node \<Rightarrow> string" where
  "extractContents qualifies codeEl =
     innerHTML (fold (\<lambda>c r. fold (\<lambda>p r'. appendChild r' p) (childPieces qualifies c) r)
                  (childNodes codeEl) (cloneNode codeEl))"

definition isInlineElement :: "node \<Rightarrow> bool" where
  "isInlineElement c \<longleftrightarrow> (case c of Element t as cs \<Rightarrow> t \<in> set inlineElements | _ \<Rightarrow> False)"

definition isSpan :: "node \<Rightarrow> bool" where
  "isSpan c \<longleftrightarrow> tagName c = Some ''SPAN''"

definition getCodeblockContents_spec :: "node \<Rightarrow> string" where
  "getCodeblockContents_spec = extractContents isInlineElement"

definition getCodeblockContents_amended :: "node \<Rightarrow> string" where
  "getCodeblockContents_amended = extractContents isSpan"

text \<open>
  The first lines of \<open>createEnhancedCodeBlock\<close>: the raw content is split on newlines
  and a last line that is empty or \<open></span>\<close> is popped. (\<open>split\<close> never returns an
  empty array, so \<open>lines[lines.length - 1]\<close> exists.)
\<close>

definition extractedLines :: "string \<Rightarrow> string list" where
  "extractedLines rawContent =
     (let lines = split (CHR 0x0A) rawContent in
      if lines \<noteq> [] \<and> (last lines = [] \<or> last lines = ''</span>'') then butlast lines else lines)"

section \<open>Queries on the document\<close>

definition isAsciiWhitespace :: "char \<Rightarrow> bool" where
  "isAsciiWhitespace c \<longleftrightarrow>
     c = CHR 0x09 \<or> c = CHR 0x0A \<or> c = CHR 0x0C \<or> c = CHR 0x0D \<or> c = CHR 0x20"

fun splitWhen :: "(char \<Rightarrow> bool) \<Rightarrow> string \<Rightarrow> string list" where
  "splitWhen p [] = [[]]"
| "splitWhen p (c # cs) =
     (if p c then [] # splitWhen p cs
      else (case splitWhen p cs of
              [] \<Rightarrow> [[c]]
            | piece # pieces \<Rightarrow> (c # piece) # pieces))"

text \<open>
  \<open>classList\<close>: the tokens of the \<open>class\<close> attribute, each once, in the order of their
  first occurrence.
\<close>

definition classList :: "node \<Rightarrow> string list" where
  "classList n =
     (case getAttribute n ''class'' of
        None \<Rightarrow> []
      | Some v \<Rightarrow> rev (remdups (rev (filter (\<lambda>t. t \<noteq> []) (splitWhen isAsciiWhitespace v)))))"

definition classListContains :: "node \<Rightarrow> string \<Rightarrow> bool" where
  "classListContains n c \<longleftrightarrow> c \<in> set (classList n)"

fun setAttribute :: "node \<Rightarrow> string \<Rightarrow> string \<Rightarrow> node" where
  "setAttribute (Element t as cs) name v =
     Element t (if name \<in> fst ` set as then map (\<lambda>(k, x). if k = name then (k, v) else (k, x)) as
                else as @ [(name, v)]) cs"
| "setAttribute n name v = n"

text \<open>\<open>classList.add(c)\<close> appends the token if it is new and writes the token set back.\<close>

definition classListAdd :: "string \<Rightarrow> node \<Rightarrow> node" where
  "classListAdd c n =
     setAttribute n ''class''
       (joinWith '' '' (if c \<in> set (classList n) then classList n else classList n @ [c]))"

text \<open>\<open>el.id\<close> is the \<open>id\<close> attribute, or the empty string.\<close>

definition elementId :: "node \<Rightarrow> string" where
  "elementId n = (case getAttribute n ''id'' of Some v \<Rightarrow> v | None \<Rightarrow> [])"

text \<open>The descendants of a node in tree order, the node itself excluded.\<close>

fun descendants :: "node \<Rightarrow> node list" where
  "descendants (Element t as cs) = concat (map (\<lambda>c. c # descendants c) cs)"
| "descendants n = []"

text \<open>
  The selectors that the code uses: a type selector, a class selector, an id selector
  and a type selector with a class. Only elements match.
\<close>

datatype selector = TagSel string | ClassSel string | IdSel string | TagClassSel string string

fun matches :: "node \<Rightarrow> selector \<Rightarrow> bool" where
  "matches (Element t as cs) (TagSel x) = (t = x)"
| "matches (Element t as cs) (ClassSel c) = classListContains (Element t as cs) c"
| "matches (Element t as cs) (IdSel i) = (map_of as ''id'' = Some i)"
| "matches (Element t as cs) (TagClassSel x c) = (t = x \<and> classListContains (Element t as cs) c)"
| "matches n s = False"

definition querySelector :: "node \<Rightarrow> selector \<Rightarrow> node option" where
  "querySelector n s = find (\<lambda>d. matches d s) (descendants n)"

definition firstElementChild :: "node \<Rightarrow> node option" where
  "firstElementChild n = find isElementNode (childNodes n)"

text \<open>
  A node of the document is referred to by its path, the child indices from the document
  node down. The document node itself is modelled as an element without attributes.
\<close>

type_synonym path = "nat list"

fun nodeAt :: "node \<Rightarrow> path \<Rightarrow> node option" where
  "nodeAt n [] = Some n"
| "nodeAt (Element t as cs) (i # p) = (if i < length cs then nodeAt (cs ! i) p else None)"
| "nodeAt n (i # p) = None"

fun updateAt :: "node \<Rightarrow> path \<Rightarrow> (node \<Rightarrow> node) \<Rightarrow> node" where
  "updateAt n [] f = f n"
| "updateAt (Element t as cs) (i # p) f =
     (if i < length cs then Element t as (cs[i := updateAt (cs ! i) p f]) else Element t as cs)"
| "updateAt n (i # p) f = n"

fun descendantPaths :: "node \<Rightarrow> path list"
  and childPaths :: "nat \<Rightarrow> node list \<Rightarrow> path list" where
  "descendantPaths (Element t as cs) = childPaths 0 cs"
| "descendantPaths (Text d) = []"
| "descendantPaths (Comment d) = []"
| "childPaths i [] = []"
| "childPaths i (c # cs) = [i] # map ((#) i) (descendantPaths c) @ childPaths (Suc i) cs"

definition matchesAt :: "node \<Rightarrow> selector \<Rightarrow> path \<Rightarrow> bool" where
  "matchesAt doc s p = (case nodeAt doc p of Some d \<Rightarrow> matches d s | None \<Rightarrow> False)"

text \<open>\<open>base.querySelectorAll(s)\<close>: the matching descendants of the node at \<open>base\<close>, in tree order.\<close>

definition querySelectorAll :: "node \<Rightarrow> path \<Rightarrow> selector \<Rightarrow> path list" where
  "querySelectorAll doc base s =
     (case nodeAt doc base of
        None \<Rightarrow> []
      | Some n \<Rightarrow> filter (matchesAt doc s) (map ((@) base) (descendantPaths n)))"

text \<open>\<open>closest(s)\<close>: the nearest of the node and its ancestors that matches.\<close>

definition closest :: "node \<Rightarrow> path \<Rightarrow> selector \<Rightarrow> path option" where
  "closest doc p s = find (matchesAt doc s) (map (\<lambda>k. take k p) (rev [0..<Suc (length p)]))"

definition getElementById :: "node \<Rightarrow> string \<Rightarrow> path option" where
  "getElementById doc i = find (matchesAt doc (IdSel i)) (descendantPaths doc)"

text \<open>
  \<open>innerText\<close> is the rendered text. The cells of a code block are rendered as they are
  (preformatted, nothing hidden), where it is the text content.
\<close>

definition innerText :: "node \<Rightarrow> string" where
  "innerText n = textContent n"

text \<open>The decimal numeral of a line number or block id in a template string.\<close>

fun showNat :: "nat \<Rightarrow> string" where
  "showNat n = (if n < 10 then [''0123456789'' ! n] else showNat (n div 10) @ [''0123456789'' ! (n mod 10)])"

declare showNat.simps [simp del]

text \<open>\<open>clsx\<close>: the truthy arguments, joined by a space.\<close>

definition clsx :: "string option list \<Rightarrow> string" where
  "clsx args =
     joinWith '' '' (concat (map (\<lambda>a. case a of Some s \<Rightarrow> if s = [] then [] else [s] | None \<Rightarrow> []) args))"


section \<open>Rendering\<close>

text \<open>
  Modelled from the spec: the enumeration \<open>CodeblockVariant\<close> of \<open>types.ts\<close>, which is not
  among the sources. The specification names its three values: legacy, no-line-numbers
  and the enhanced default.
\<close>

datatype CodeblockVariant = ENHANCED | NO_LINE_NUMBERS | LEGACY

fun variantValue :: "CodeblockVariant \<Rightarrow> string" where
  "variantValue ENHANCED = ''enhanced''"
| "variantValue NO_LINE_NUMBERS = ''no-line-numbers''"
| "variantValue LEGACY = ''legacy''"

text \<open>
  What the code takes from outside this file: the HTML parser of the browser behind
  \<open>dangerouslySetInnerHTML\<close>, the \<open>slugify\<close> library, the configured default variant, the
  \<open>AnchorJS\<close> library (a change of the document, given a selector), and what the JSX
  library appends for a \<open>null\<close> child (nothing, or an empty comment).
\<close>

record env =
  parseHTML :: "string \<Rightarrow> node list"
  slugify :: "string \<Rightarrow> string"
  DEFAULT_CODEBLOCK_VARIANT :: CodeblockVariant
  anchorsAdd :: "selector \<Rightarrow> node \<Rightarrow> node"
  jsxNull :: "node list"

definition CODEBLOCK_LINE_CLASS :: string where
  "CODEBLOCK_LINE_CLASS = ''primer-spec-code-block-line-code''"

definition CODEBLOCK_PROCESSED_CLASS :: string where
  "CODEBLOCK_PROCESSED_CLASS = ''primer-spec-code-block-processed''"

definition CODEBLOCK_TITLE_CLASS :: string where
  "CODEBLOCK_TITLE_CLASS = ''primer-spec-code-block-title''"

definition LANGUAGE_CONSOLE :: string where
  "LANGUAGE_CONSOLE = ''console''"

text \<open>
  The special handling of \<open>console\<close> lines in \<open>createCodeBlockLine\<close>, applied to the content
  cell: a leading prompt and the prompt and white-space elements after it go into a
  non-selectable \<open>span\<close>, the rest into a \<open>span\<close> that takes over the id of the cell.
\<close>

definition isPromptOrWhitespace :: "node \<Rightarrow> bool" where
  "isPromptOrWhitespace child \<longleftrightarrow>
     isElementNode child \<and> (classListContains child ''gp'' \<or> classListContains child ''w'')"

definition excludePrompt :: "string \<Rightarrow> node \<Rightarrow> node" where
  "excludePrompt LC_ID codeLine =
     (case childNodes codeLine of
        [] \<Rightarrow> codeLine
      | firstChild # rest \<Rightarrow>
          if tagName firstChild = Some ''SPAN'' \<and> classListContains firstChild ''gp'' then
            (let children = childNodes codeLine;
                 childrenToExcludeFromSelection = takeWhile isPromptOrWhitespace children;
                 childrenToIncludeInSelection = dropWhile isPromptOrWhitespace children
             in case setAttribute codeLine ''id'' [] of
                  Element t as cs \<Rightarrow>
                    Element t as
                      [Element ''span'' [(''class'', ''primer-spec-code-block-non-selectable'')]
                         childrenToExcludeFromSelection,
                       Element ''span'' [(''id'', LC_ID)] childrenToIncludeInSelection]
                | n \<Rightarrow> n)
          else codeLine)"

text \<open>
  The content cell of a row, the second \<open>td\<close> of \<open>createCodeBlockLine\<close>, after the
  handling of \<open>console\<close> lines. (The cell is what
  \<open>codeblockLine.querySelector('.primer-spec-code-block-line-code')\<close> finds: the number
  cell before it has another class and no children.)
\<close>

definition lineCodeCell :: "env \<Rightarrow> string \<Rightarrow> string option \<Rightarrow> string \<Rightarrow> nat \<Rightarrow> bool \<Rightarrow> node" where
  "lineCodeCell e codeblockId language line lineNumber shouldHighlight =
     (let LC_ID = codeblockId @ ''-LC'' @ showNat lineNumber;
          codeLine = Element ''td''
            [(''id'', LC_ID),
             (''class'', clsx [Some CODEBLOCK_LINE_CLASS,
                (if shouldHighlight then Some ''primer-spec-code-block-highlighted'' else None)])]
            (parseHTML e line)
      in if language = Some LANGUAGE_CONSOLE then excludePrompt LC_ID codeLine else codeLine)"

definition createCodeBlockLine ::
  "env \<Rightarrow> string \<Rightarrow> string option \<Rightarrow> string \<Rightarrow> nat \<Rightarrow> bool \<Rightarrow> bool \<Rightarrow> node" where
  "createCodeBlockLine e codeblockId language line lineNumber shouldHighlight showLineNumbers =
     (let L_ID = codeblockId @ ''-L'' @ showNat lineNumber;
          LR_ID = codeblockId @ ''-LR'' @ showNat lineNumber
      in Element ''tr'' [(''id'', LR_ID)]
           [Element ''td''
              [(''id'', L_ID),
               (''class'', clsx [Some ''primer-spec-code-block-line-number'',
                  (if showLineNumbers then Some ''primer-spec-code-block-line-numbers-shown'' else None)]),
               (''data-line-number'', showNat lineNumber)] [],
            lineCodeCell e codeblockId language line lineNumber shouldHighlight])"

definition genCopyButton :: "string \<Rightarrow> string option \<Rightarrow> node" where
  "genCopyButton codeblockId language =
     Element ''div''
       [(''class'', ''primer-spec-zeroclipboard-container position-absolute top-0 right-0'')]
       [Element ''button''
          [(''type'', ''button''),
           (''class'', ''btn-octicon no-print m-2 p-2 tooltipped tooltipped-no-delay tooltipped-n''),
           (''tabindex'', ''0''),
           (''aria-label'', if language = Some LANGUAGE_CONSOLE then ''Copy all commands'' else ''Copy'')]
          [Element ''i'' [(''class'', ''far fa-copy'')] []]]"

definition genCodeBlockHeader :: "string option \<Rightarrow> string option \<Rightarrow> node option" where
  "genCodeBlockHeader title anchorId =
     (case title of
        None \<Rightarrow> None
      | Some t \<Rightarrow> Some (Element ''div''
          [(''class'', ''Box-header py-2 pr-2 d-flex flex-shrink-0 flex-md-row flex-items-center primer-spec-code-block-header'')]
          [Element ''span''
             ((''class'', clsx [Some ''flex-auto'', Some CODEBLOCK_TITLE_CLASS])
              # (case anchorId of Some a \<Rightarrow> [(''data-anchor-id'', a)] | None \<Rightarrow> []))
             [Text t]]))"

text \<open>A JSX child that is an element or \<open>null\<close>.\<close>

definition jsxChild :: "env \<Rightarrow> node option \<Rightarrow> node list" where
  "jsxChild e c = (case c of Some n \<Rightarrow> [n] | None \<Rightarrow> jsxNull e)"

text \<open>
  \<open>createEnhancedCodeBlock\<close> returns the new element, or \<open>null\<close> after a warning: the
  warning is the left value. The maximum that it gives to the range parser is the number
  of lines, the length of an array, and for such a maximum the parser returns a set
  (\<open>safeMax_array_length\<close> and \<open>parse_returns\<close> below): \<open>returned\<close> takes that set.
\<close>

definition createEnhancedCodeBlock ::
  "env \<Rightarrow> nat \<Rightarrow> string \<Rightarrow> string option \<Rightarrow> string option \<Rightarrow> string option \<Rightarrow> string option
     \<Rightarrow> bool \<Rightarrow> string + node" where
  "createEnhancedCodeBlock e codeblockNumericId rawContent language rawHighlightRanges title
       anchorId showLineNumbers =
     (if length (split (CHR 0x0A) rawContent) = 0 then
        Inl ''useEnhancedCodeBlocks: Code Block appears to have no lines!''
      else
        let lines = extractedLines rawContent;
            highlightRanges = returned (parseCodeHighlightRanges rawHighlightRanges (Num (of_nat (length lines))));
            codeblockId = ''primer-spec-code-block-'' @ showNat codeblockNumericId;
            header = genCodeBlockHeader title anchorId
        in Inr (Element ''div'' [(''id'', codeblockId), (''class'', ''Box mt-3 text-mono'')]
             (jsxChild e header @
              [Element ''div''
                 [(''class'', clsx [Some ''Box-body'', Some ''p-0'', Some ''primer-spec-code-block-body'',
                     (if header \<noteq> None then Some ''primer-spec-code-block-header-present'' else None)])]
                 (Element ''table'' [(''class'', ''highlight'')]
                    [Element ''tbody'' []
                       (map (\<lambda>(line, lineNumber).
                               createCodeBlockLine e codeblockId language line (lineNumber + 1)
                                 (Num (of_nat (lineNumber + 1)) \<in> highlightRanges) showLineNumbers)
                          (zip lines [0..<length lines]))]
                  # jsxChild e (if length lines > 1 then Some (genCopyButton codeblockId language)
                                else None))])))"

section \<open>Copying\<close>

text \<open>
  The two functions that extract the text of a line. Their result is
  \<open>string | null | undefined\<close>; \<open>None\<close> stands for the two empty results.

  The console function looks for \<open>`#${LC_ID}`\<close> among the descendants of the line. That
  string is the id selector of \<open>LC_ID\<close> because the id of a block is
  \<open>primer-spec-code-block-\<close> and a number (\<open>createEnhancedCodeBlock\<close> gives no other id),
  so \<open>LC_ID\<close> is an identifier of the selector syntax; an id with other characters, a
  dot for one, would make it another selector.
\<close>

definition DEFAULT_COPY_LINES_MAP_FN :: "node \<Rightarrow> nat \<Rightarrow> node \<Rightarrow> string option" where
  "DEFAULT_COPY_LINES_MAP_FN line lineNumber codeblock = Some (innerText line)"

definition CONSOLE_COPY_LINES_MAP_FN :: "node \<Rightarrow> nat \<Rightarrow> node \<Rightarrow> string option" where
  "CONSOLE_COPY_LINES_MAP_FN line lineNumber codeblock =
     (case querySelector line (ClassSel ''go'') of
        Some outputText \<Rightarrow> None
      | None \<Rightarrow>
          (let LC_ID = elementId codeblock @ ''-LC'' @ showNat lineNumber
           in map_option innerText (querySelector line (IdSel LC_ID))))"

text \<open>
  \<open>copyLines\<close>: the text that is written to the clipboard. \<open>filter(Boolean)\<close> drops the
  empty results and the empty string.
\<close>

definition copyLines :: "node \<Rightarrow> (node \<Rightarrow> nat \<Rightarrow> node \<Rightarrow> string option) \<Rightarrow> string" where
  "copyLines codeblock mapFn =
     (let lines = filter (\<lambda>d. matches d (ClassSel CODEBLOCK_LINE_CLASS)) (descendants codeblock);
          linesOfText = filter (\<lambda>r. r \<noteq> None \<and> r \<noteq> Some [])
             (map (\<lambda>(line, i). mapFn line (i + 1) codeblock) (zip lines [0..<length lines]))
      in joinWith [CHR 0x0A] (map (\<lambda>r. case r of Some s \<Rightarrow> s | None \<Rightarrow> []) linesOfText))"

section \<open>Selection\<close>

text \<open>
  A range has two boundary points, each a node and an offset. A point comes before another
  in tree order exactly if its path, extended by its offset, is smaller in the
  lexicographic order, or equal.
\<close>

record dom_range =
  startContainer :: path
  startOffset :: nat
  endContainer :: path
  endOffset :: nat

fun precedes :: "nat list \<Rightarrow> nat list \<Rightarrow> bool" where
  "precedes [] ys = True"
| "precedes (x # xs) [] = False"
| "precedes (x # xs) (y # ys) = (x < y \<or> (x = y \<and> precedes xs ys))"

definition createRange :: dom_range where
  "createRange = \<lparr>startContainer = [], startOffset = 0, endContainer = [], endOffset = 0\<rparr>"

text \<open>\<open>setStart\<close> and \<open>setEnd\<close> collapse the range when the new point passes the other end.\<close>

definition setStart :: "dom_range \<Rightarrow> path \<Rightarrow> nat \<Rightarrow> dom_range" where
  "setStart r n off =
     (if precedes (n @ [off]) (endContainer r @ [endOffset r])
      then r\<lparr>startContainer := n, startOffset := off\<rparr>
      else \<lparr>startContainer = n, startOffset = off, endContainer = n, endOffset = off\<rparr>)"

definition setEnd :: "dom_range \<Rightarrow> path \<Rightarrow> nat \<Rightarrow> dom_range" where
  "setEnd r n off =
     (if precedes (startContainer r @ [startOffset r]) (n @ [off])
      then r\<lparr>endContainer := n, endOffset := off\<rparr>
      else \<lparr>startContainer = n, startOffset = off, endContainer = n, endOffset = off\<rparr>)"

text \<open>
  The page: the document, the selection (\<open>document.getSelection()\<close>, which may be \<open>null\<close>;
  otherwise its ranges) and what was written to the console.
\<close>

record page =
  document :: node
  selection :: "dom_range list option"
  console :: "string list"

definition removeAllRanges :: "dom_range list \<Rightarrow> dom_range list" where
  "removeAllRanges rs = []"

definition addRange :: "dom_range \<Rightarrow> dom_range list \<Rightarrow> dom_range list" where
  "addRange r rs = (if rs = [] then [r] else rs)"

definition childCount :: "node \<Rightarrow> path \<Rightarrow> nat" where
  "childCount doc p = (case nodeAt doc p of Some n \<Rightarrow> length (childNodes n) | None \<Rightarrow> 0)"

definition selectLinesError :: string where
  "selectLinesError = ''Primer Spec Code Block: selectLines: start or end nodes are null. Please report this issue on https://github.com/eecs485staff/primer-spec/issues. Thanks!''"

definition selectLines :: "string \<Rightarrow> nat \<Rightarrow> nat \<Rightarrow> page \<Rightarrow> page" where
  "selectLines codeblockId startLine0 endLine0 pg =
     (let startLine = (if startLine0 > endLine0 then endLine0 else startLine0);
          endLine = (if startLine0 > endLine0 then startLine0 else endLine0);
          startNode = getElementById (document pg) (codeblockId @ ''-LC'' @ showNat startLine);
          endNode = getElementById (document pg) (codeblockId @ ''-LC'' @ showNat endLine)
      in case (startNode, endNode) of
           (Some s, Some e) \<Rightarrow>
             (let r = setEnd (setStart createRange s 0) e (childCount (document pg) e)
              in pg\<lparr>selection := map_option (\<lambda>rs. addRange r (removeAllRanges rs)) (selection pg)\<rparr>)
         | _ \<Rightarrow> pg\<lparr>console := console pg @ [selectLinesError]\<rparr>)"


section \<open>The orchestrator\<close>

definition toLowerChar :: "char \<Rightarrow> char" where
  "toLowerChar c =
     (case map_of (zip ''ABCDEFGHIJKLMNOPQRSTUVWXYZ'' ''abcdefghijklmnopqrstuvwxyz'') c of
        Some l \<Rightarrow> l
      | None \<Rightarrow> c)"

text \<open>\<open>codeblock.dataset[name]\<close> is the attribute \<open>data-name\<close>.\<close>

definition dataset :: "node \<Rightarrow> string \<Rightarrow> string option" where
  "dataset n name = getAttribute n (''data-'' @ name)"

text \<open>\<open>x || null\<close> for a string that may be missing: the empty string is falsy.\<close>

definition orNull :: "string option \<Rightarrow> string option" where
  "orNull x = (case x of Some s \<Rightarrow> if s = [] then None else Some s | None \<Rightarrow> None)"

definition getCodeblockVariant :: "env \<Rightarrow> node \<Rightarrow> CodeblockVariant" where
  "getCodeblockVariant e codeblock =
     (case orNull (map_option (map toLowerChar) (dataset codeblock ''variant'')) of
        Some rawVariant \<Rightarrow>
          (case find (\<lambda>v. variantValue v = rawVariant) [ENHANCED, NO_LINE_NUMBERS, LEGACY] of
             Some v \<Rightarrow> v
           | None \<Rightarrow> DEFAULT_CODEBLOCK_VARIANT e)
      | None \<Rightarrow> DEFAULT_CODEBLOCK_VARIANT e)"

definition shouldRetainLegacyCodeBlock :: "env \<Rightarrow> node \<Rightarrow> bool" where
  "shouldRetainLegacyCodeBlock e codeblock =
     (if querySelector codeblock (ClassSel ''language-mermaid'') \<noteq> None then True
      else getCodeblockVariant e codeblock = LEGACY)"

definition getCodeBlockLanguage :: "node \<Rightarrow> string option" where
  "getCodeBlockLanguage codeblockSrc =
     map_option (drop (length ''language-''))
       (find (\<lambda>className. take (length ''language-'') className = ''language-'')
          (classList codeblockSrc))"

definition createCodeBlockAnchorId :: "env \<Rightarrow> nat \<Rightarrow> string \<Rightarrow> string" where
  "createCodeBlockAnchorId e codeblockNumericId title =
     slugify e title @ ''-'' @ showNat codeblockNumericId"

text \<open>
  The two functions that find the code element. The result is the element, or \<open>null\<close>
  with the warnings written before: the left value.
\<close>

definition malformedWarning :: string where
  "malformedWarning = ''useEnhancedCodeBlocks: Code Block has malformed structure. See Primer Spec Docs for expected structure. https://github.com/eecs485staff/primer-spec/blob/main/docs/USAGE_ADVANCED.md#enhanced-code-blocks''"

definition getCodeElFromJekyllRougeCodeblock :: "node \<Rightarrow> string list + node" where
  "getCodeElFromJekyllRougeCodeblock codeblock =
     (case Option.bind (Option.bind (firstElementChild codeblock) firstElementChild) firstElementChild of
        None \<Rightarrow> Inl [malformedWarning]
      | Some codeEl \<Rightarrow> Inr codeEl)"

definition getCodeElFromPreCodeblock :: "node \<Rightarrow> string list + node" where
  "getCodeElFromPreCodeblock codeblock =
     (case firstElementChild codeblock of
        Some child \<Rightarrow>
          if length (childNodes codeblock) = 1 \<and> tagName child = Some ''CODE'' then Inr child
          else Inr codeblock
      | None \<Rightarrow> Inr codeblock)"

text \<open>
  While the blocks of one node list are enhanced, a block that was replaced leaves the
  document but stays alive, with its subtree, through the node list. So the state holds
  a forest: the document at path \<open>[]\<close> and, before it, each replaced block at the path it
  had, newest first. A path of the node list lives in the first tree whose path is a
  prefix of it.
\<close>

type_synonym forest = "(path \<times> node) list"

record enhancer =
  trees :: forest
  nextCodeBlockId :: nat
  warnings :: "string list"

definition isPrefix :: "path \<Rightarrow> path \<Rightarrow> bool" where
  "isPrefix q p \<longleftrightarrow> take (length q) p = q"

definition deref :: "forest \<Rightarrow> path \<Rightarrow> node option" where
  "deref ts p =
     (case find (\<lambda>(q, t). isPrefix q p) ts of
        Some (q, t) \<Rightarrow> nodeAt t (drop (length q) p)
      | None \<Rightarrow> None)"

text \<open>\<open>parentElement\<close> is \<open>null\<close> for the root of a tree only.\<close>

definition hasParentElement :: "forest \<Rightarrow> path \<Rightarrow> bool" where
  "hasParentElement ts p =
     (case find (\<lambda>(q, t). isPrefix q p) ts of
        Some (q, t) \<Rightarrow> length q < length p
      | None \<Rightarrow> False)"

fun modify :: "forest \<Rightarrow> path \<Rightarrow> (node \<Rightarrow> node) \<Rightarrow> forest" where
  "modify [] p f = []"
| "modify ((q, t) # ts) p f =
     (if isPrefix q p then (q, updateAt t (drop (length q) p) f) # ts
      else (q, t) # modify ts p f)"

text \<open>\<open>parent.replaceChild(new, old)\<close> for the node \<open>old\<close> at path \<open>p\<close>.\<close>

definition replaceChild :: "forest \<Rightarrow> path \<Rightarrow> node \<Rightarrow> forest" where
  "replaceChild ts p new =
     (case deref ts p of
        Some old \<Rightarrow> (p, old) # modify ts p (\<lambda>n. new)
      | None \<Rightarrow> ts)"

definition documentOf :: "forest \<Rightarrow> node \<Rightarrow> node" where
  "documentOf ts d = (case find (\<lambda>(q, t). q = []) ts of Some (q, t) \<Rightarrow> t | None \<Rightarrow> d)"

text \<open>The body of the \<open>forEach\<close> of \<open>enhanceBlocks\<close>, for the block at path \<open>p\<close>.\<close>

definition enhanceBlock ::
  "env \<Rightarrow> (node \<Rightarrow> string list + node) \<Rightarrow> path \<Rightarrow> enhancer \<Rightarrow> enhancer" where
  "enhanceBlock e getCodeEl p st =
     (case deref (trees st) p of
        None \<Rightarrow> st
      | Some codeblock \<Rightarrow>
          if shouldRetainLegacyCodeBlock e codeblock then
            st\<lparr>trees := modify (trees st) p (classListAdd CODEBLOCK_PROCESSED_CLASS)\<rparr>
          else
            let codeblockNumericId = nextCodeBlockId st;
                st1 = st\<lparr>nextCodeBlockId := nextCodeBlockId st + 1\<rparr>
            in if \<not> hasParentElement (trees st) p then
                 st1\<lparr>warnings := warnings st @ [''useEnhanccedCodeBlocks: Codeblock missing parent'']\<rparr>
               else
                 case getCodeEl codeblock of
                   Inl ws \<Rightarrow> st1\<lparr>warnings := warnings st @ ws\<rparr>
                 | Inr codeblockContentsEl \<Rightarrow>
                     let codeblockContents = getCodeblockContents codeblockContentsEl;
                         title = orNull (dataset codeblock ''title'');
                         anchorId = map_option (createCodeBlockAnchorId e codeblockNumericId) title
                     in case createEnhancedCodeBlock e codeblockNumericId codeblockContents
                               (getCodeBlockLanguage codeblock)
                               (orNull (dataset codeblock ''highlight''))
                               title anchorId
                               (getCodeblockVariant e codeblock \<noteq> NO_LINE_NUMBERS) of
                          Inl w \<Rightarrow> st1\<lparr>warnings := warnings st @ [w]\<rparr>
                        | Inr enhancedCodeBlock \<Rightarrow>
                            st1\<lparr>trees := replaceChild (trees st) p
                                  (Element ''div''
                                     ((case anchorId of Some a \<Rightarrow> [(''id'', a)] | None \<Rightarrow> [])
                                      @ [(''class'', ''primer-spec-code-block'')])
                                     [enhancedCodeBlock])\<rparr>)"

text \<open>
  \<open>enhanceBlocks(codeblocks, getCodeEl, startId)\<close> on the document \<open>doc\<close>: the new
  document, the next id and the warnings.
\<close>

definition enhanceBlocks ::
  "env \<Rightarrow> node \<Rightarrow> path list \<Rightarrow> (node \<Rightarrow> string list + node) \<Rightarrow> nat
     \<Rightarrow> node \<times> nat \<times> string list" where
  "enhanceBlocks e doc codeblocks getCodeEl startId =
     (let unprocessed = filter (\<lambda>p.
            (case nodeAt doc p of
               Some codeblock \<Rightarrow> querySelector codeblock (ClassSel CODEBLOCK_PROCESSED_CLASS) = None
             | None \<Rightarrow> False)
            \<and> closest doc p (ClassSel CODEBLOCK_PROCESSED_CLASS) = None) codeblocks;
          st = fold (enhanceBlock e getCodeEl) unprocessed
                 \<lparr>trees = [([], doc)], nextCodeBlockId = startId, warnings = []\<rparr>
      in (anchorsAdd e (ClassSel CODEBLOCK_TITLE_CLASS) (documentOf (trees st) doc),
          nextCodeBlockId st, warnings st))"

text \<open>
  \<open>useEnhancedCodeBlocks(mainElRef)\<close>: \<open>mainElRef.current\<close> is the path of the main element
  or \<open>null\<close>, where the hook throws. Otherwise the result is the new document, the
  warnings, and the number that the second pass returns.
\<close>

definition useEnhancedCodeBlocks ::
  "env \<Rightarrow> path option \<Rightarrow> node \<Rightarrow> string + (node \<times> string list \<times> nat)" where
  "useEnhancedCodeBlocks e mainElRef doc =
     (case mainElRef of
        None \<Rightarrow> Inl ''Primer Spec: Main Content: Expected main content ref to be initialized.''
      | Some mainEl \<Rightarrow>
          (case enhanceBlocks e doc
                  (querySelectorAll doc mainEl (TagClassSel ''div'' ''highlighter-rouge''))
                  getCodeElFromJekyllRougeCodeblock 0 of
             (doc1, numCodeBlocks, w1) \<Rightarrow>
               (case enhanceBlocks e doc1 (querySelectorAll doc1 mainEl (TagSel ''pre''))
                       getCodeElFromPreCodeblock numCodeBlocks of
                  (doc2, n2, w2) \<Rightarrow> Inr (doc2, w1 @ w2, n2))))"

text \<open>
  The three lines of the console example as they are extracted, and an environment for the
  examples: the parser on the strings that occur in them (a string without markup is one
  text node), no anchors to add, the identity for slugs, the enhanced variant as default,
  and an empty comment for a \<open>null\<close> child.
\<close>

definition lsLine :: string where
  "lsLine = ''<span class='' @ [CHR 0x22] @ ''gp'' @ [CHR 0x22] @ ''>$</span><span class=''
     @ [CHR 0x22] @ ''w'' @ [CHR 0x22] @ ''> </span>ls''"

definition outputLine :: string where
  "outputLine = ''<span class='' @ [CHR 0x22] @ ''go'' @ [CHR 0x22] @ ''>file.txt</span>''"

definition pwdLine :: string where
  "pwdLine = ''<span class='' @ [CHR 0x22] @ ''gp'' @ [CHR 0x22] @ ''>$</span><span class=''
     @ [CHR 0x22] @ ''w'' @ [CHR 0x22] @ ''> </span>pwd''"

definition exampleParse :: "string \<Rightarrow> node list" where
  "exampleParse s =
     (case map_of
        [(lsLine,
          [Element ''span'' [(''class'', ''gp'')] [Text ''$''],
           Element ''span'' [(''class'', ''w'')] [Text '' ''], Text ''ls'']),
         (outputLine,
          [Element ''span'' [(''class'', ''go'')] [Text ''file.txt'']]),
         (pwdLine,
          [Element ''span'' [(''class'', ''gp'')] [Text ''$''],
           Element ''span'' [(''class'', ''w'')] [Text '' ''], Text ''pwd'']),
         (''<!---->'', [Comment []])] s of
        Some ns \<Rightarrow> ns
      | None \<Rightarrow> if s = [] then [] else [Text s])"

definition exampleEnv :: env where
  "exampleEnv = \<lparr>parseHTML = exampleParse, slugify = (\<lambda>s. s),
     DEFAULT_CODEBLOCK_VARIANT = ENHANCED, anchorsAdd = (\<lambda>s d. d), jsxNull = [Comment []]\<rparr>"

text \<open>A page with a table of two content cells, for the examples of the selection.\<close>

definition examplePage :: page where
  "examplePage =
     \<lparr>document = Element ''#document'' []
        [Element ''table'' []
           [Element ''td'' [(''id'', ''b-LC1'')] [Text ''x''],
            Element ''td'' [(''id'', ''b-LC2'')] [Text ''y'', Text ''z'']]],
      selection = Some [],
      console = []\<rparr>"

text \<open>A line starts with a prompt: the test of \<open>createCodeBlockLine\<close> on the first child.\<close>

definition startsWithPrompt :: "node list \<Rightarrow> bool" where
  "startsWithPrompt children =
     (case children of
        [] \<Rightarrow> False
      | firstChild # rest \<Rightarrow> tagName firstChild = Some ''SPAN'' \<and> classListContains firstChild ''gp'')"

text \<open>
  The code element of the console example: the lines \<open>$ ls\<close>, \<open>file.txt\<close> and \<open>$ pwd\<close>,
  the prompts and the output marked as the highlighter marks them.
\<close>

definition consoleExample :: node where
  "consoleExample =
     Element ''code'' []
       [Element ''span'' [(''class'', ''gp'')] [Text ''$''],
        Element ''span'' [(''class'', ''w'')] [Text '' ''],
        Text ''ls\<newline>'',
        Element ''span'' [(''class'', ''go'')] [Text ''file.txt\<newline>''],
        Element ''span'' [(''class'', ''gp'')] [Text ''$''],
        Element ''span'' [(''class'', ''w'')] [Text '' ''],
        Text ''pwd\<newline>'']"

text \<open>
  A command that continues on a second line (\<open>$ ls\<close> with a backslash at the end of
  the line, then \<open>-l\<close>): the code element as the highlighter marks it, the first line
  of it as \<open>createEnhancedCodeBlock\<close> cuts it, and the parser and the environment of the
  examples extended by that line. The second line has neither a prompt nor the class of
  an output.
\<close>

definition continuationExample :: node where
  "continuationExample =
     Element ''code'' []
       [Element ''span'' [(''class'', ''gp'')] [Text ''$''],
        Element ''span'' [(''class'', ''w'')] [Text '' ''],
        Text (''ls '' @ [CHR 0x5C] @ ''\<newline>-l\<newline>'')]"

definition continuedLine :: string where
  "continuedLine = lsLine @ '' '' @ [CHR 0x5C]"

definition continuationParse :: "string \<Rightarrow> node list" where
  "continuationParse s =
     (if s = continuedLine then
        [Element ''span'' [(''class'', ''gp'')] [Text ''$''],
         Element ''span'' [(''class'', ''w'')] [Text '' ''], Text (''ls '' @ [CHR 0x5C])]
      else exampleParse s)"

definition continuationEnv :: env where
  "continuationEnv = exampleEnv\<lparr>parseHTML := continuationParse\<rparr>"

definition exampleBlockRoot :: node where
  "exampleBlockRoot = Element ''div'' [(''id'', ''primer-spec-code-block-0'')] []"

text \<open>
  Two documents for the examples of the orchestrator, the main element at path \<open>[0, 0, 0]\<close>.
  In the first a wrapper of the highlighter holds a bare \<open>pre\<close> instead of the three
  nested levels. In the second a wrapper without any element is followed by a well-formed
  wrapper and a bare \<open>pre\<close>.
\<close>

definition nestedExample :: node where
  "nestedExample =
     Element ''#document'' [] [Element ''html'' [] [Element ''body'' [] [Element ''main'' []
       [Element ''div'' [(''class'', ''highlighter-rouge'')]
          [Element ''pre'' [] [Text ''code'']]]]]]"

definition malformedExample :: node where
  "malformedExample =
     Element ''#document'' [] [Element ''html'' [] [Element ''body'' [] [Element ''main'' []
       [Element ''div'' [(''class'', ''highlighter-rouge'')] [Text ''oops''],
        Element ''div'' [(''class'', ''language-c highlighter-rouge'')]
          [Element ''div'' [(''class'', ''highlight'')]
             [Element ''pre'' [(''class'', ''highlight'')]
                [Element ''code'' [] [Text ''a'']]]],
        Element ''pre'' [] [Text ''b'']]]]]"

definition exampleMain :: path where
  "exampleMain = [0, 0, 0]"

text \<open>The document that a run of the hook leaves; nothing if the hook throws.\<close>

definition documentAfter :: "string + (node \<times> string list \<times> nat) \<Rightarrow> node option" where
  "documentAfter r = (case r of Inr (d, w, n) \<Rightarrow> Some d | Inl err \<Rightarrow> None)"

definition enhance :: "env \<Rightarrow> node \<Rightarrow> node option" where
  "enhance e doc = documentAfter (useEnhancedCodeBlocks e (Some exampleMain) doc)"

section \<open>Properties of the range parser\<close>

lemma pow2_powi: "pow2 e = 2 powi e"
proof (cases "0 \<le> e")
  case True
  then show ?thesis by (simp add: pow2_def power_int_def)
next
  case False
  then have "pow2 e = 1 / 2 ^ nat (- e)" by (simp add: pow2_def)
  also have "\<dots> = inverse 2 ^ nat (- e)" by (simp add: power_one_over inverse_eq_divide)
  also have "\<dots> = 2 powi e" using False by (simp only: power_int_def if_False)
  finally show ?thesis .
qed

lemma pow2_pos: "0 < pow2 e"
  by (simp add: pow2_powi)

lemma pow2_add: "pow2 (a + b) = pow2 a * pow2 b"
  by (simp add: pow2_powi power_int_add)

lemma pow2_mono: "a \<le> b \<Longrightarrow> pow2 a \<le> pow2 b"
  by (simp add: pow2_powi power_int_increasing)

lemma pow2_0: "pow2 0 = 1"
  by (simp add: pow2_def)

lemma pow2_1: "pow2 1 = 2"
  by (simp add: pow2_def)

lemma pow2_Suc: "pow2 (e + 1) = 2 * pow2 e"
  by (simp only: pow2_add pow2_1 mult.commute)

lemma expUp_bounds: "1 \<le> x \<Longrightarrow> 0 \<le> expUp x \<and> pow2 (expUp x) \<le> x \<and> x < pow2 (expUp x + 1)"
proof (induction x rule: expUp.induct)
  case (1 x)
  show ?case
  proof (cases "x < 2")
    case True
    then have "expUp x = 0" by (simp add: expUp.simps[of x])
    with True 1(2) show ?thesis by (simp add: pow2_def)
  next
    case False
    then have h: "1 \<le> x / 2" by simp
    from 1(1)[OF False h]
    have ih: "0 \<le> expUp (x / 2)" "pow2 (expUp (x / 2)) \<le> x / 2" "x / 2 < pow2 (expUp (x / 2) + 1)"
      by simp_all
    have e: "expUp x = expUp (x / 2) + 1" using False by (simp add: expUp.simps[of x])
    have "pow2 (expUp x) = 2 * pow2 (expUp (x / 2))" by (simp add: e pow2_Suc)
    moreover have "pow2 (expUp x + 1) = 2 * pow2 (expUp (x / 2) + 1)" by (simp only: e pow2_Suc)
    ultimately show ?thesis using ih e by simp
  qed
qed

lemma expUp_nonneg: "0 \<le> expUp x"
proof (induction x rule: expUp.induct)
  case (1 x)
  show ?case
  proof (cases "x < 2")
    case True
    then show ?thesis by (simp add: expUp.simps[of x])
  next
    case False
    with 1 show ?thesis by (simp add: expUp.simps[of x])
  qed
qed

lemma binExp_ge1: "1 \<le> x \<Longrightarrow> binExp x = expUp x"
  by (simp add: binExp_def)

lemma binExp_le: "x < pow2 (k + 1) \<Longrightarrow> 0 \<le> k \<Longrightarrow> binExp x \<le> k"
proof (cases "1 \<le> x")
  case True
  assume a: "x < pow2 (k + 1)"
  from expUp_bounds[OF True] have "pow2 (expUp x) \<le> x" by simp
  with a have lt: "pow2 (expUp x) < pow2 (k + 1)" by simp
  have "\<not> k + 1 \<le> expUp x"
  proof
    assume "k + 1 \<le> expUp x"
    then have "pow2 (k + 1) \<le> pow2 (expUp x)" by (rule pow2_mono)
    with lt show False by simp
  qed
  then show ?thesis using True by (simp add: binExp_ge1)
next
  case False
  assume k: "0 \<le> k"
  have "0 \<le> expUp (1 / x)" by (rule expUp_nonneg)
  then have "binExp x \<le> 0" using False by (simp add: binExp_def Let_def)
  with k show ?thesis by simp
qed

lemma roundHalfEven_close: "\<bar>of_int (roundHalfEven q) - q\<bar> \<le> 1 / 2"
proof -
  define d where "d = q - of_int \<lfloor>q\<rfloor>"
  have d: "0 \<le> d" "d < 1" unfolding d_def by linarith+
  have q: "q = of_int \<lfloor>q\<rfloor> + d" by (simp add: d_def)
  consider "d < 1 / 2" | "1 / 2 < d" | "d = 1 / 2" by linarith
  then show ?thesis
  proof cases
    case 1
    then have "roundHalfEven q = \<lfloor>q\<rfloor>" by (simp add: roundHalfEven_def Let_def d_def)
    with 1 d q show ?thesis by linarith
  next
    case 2
    then have "roundHalfEven q = \<lfloor>q\<rfloor> + 1" by (simp add: roundHalfEven_def Let_def d_def)
    then have "of_int (roundHalfEven q) - q = 1 - d" using q by simp
    with 2 d show ?thesis by linarith
  next
    case 3
    then have "roundHalfEven q = \<lfloor>q\<rfloor> \<or> roundHalfEven q = \<lfloor>q\<rfloor> + 1"
      by (simp add: roundHalfEven_def Let_def d_def)
    then have "of_int (roundHalfEven q) - q = - d \<or> of_int (roundHalfEven q) - q = 1 - d"
      using q by auto
    with 3 show ?thesis by auto
  qed
qed

lemma roundHalfEven_of_int: "roundHalfEven (of_int n) = n"
  by (simp add: roundHalfEven_def)

lemma roundHalfEven_ge_floor: "\<lfloor>q\<rfloor> \<le> roundHalfEven q"
  by (simp add: roundHalfEven_def Let_def)


lemma roundDouble_pos:
  "0 < x \<Longrightarrow> roundDouble x =
     (if 0 < of_int (roundHalfEven (x / pow2 (max (binExp x - 52) (- 1074))))
              * pow2 (max (binExp x - 52) (- 1074))
         \<and> 1024 \<le> binExp (of_int (roundHalfEven (x / pow2 (max (binExp x - 52) (- 1074))))
              * pow2 (max (binExp x - 52) (- 1074)))
      then PosInfinity
      else Num (of_int (roundHalfEven (x / pow2 (max (binExp x - 52) (- 1074))))
              * pow2 (max (binExp x - 52) (- 1074))))"
  by (simp add: roundDouble_def Let_def)

lemma pow2_53: "pow2 53 = 9007199254740992"
  by (simp add: pow2_def)

lemma pow2_52: "pow2 52 = 4503599627370496"
  by (simp add: pow2_def)

lemma binExp_small:
  assumes "1 \<le> a" "a < 9007199254740992"
  shows "0 \<le> binExp a" "binExp a \<le> 52" "pow2 (binExp a) \<le> a"
proof -
  from expUp_bounds[OF assms(1)] show "0 \<le> binExp a" "pow2 (binExp a) \<le> a"
    using assms(1) by (simp_all add: binExp_ge1)
  have "a < pow2 (52 + 1)" using assms(2) by (simp add: pow2_53)
  then show "binExp a \<le> 52" by (rule binExp_le) simp
qed

lemma not_overflow:
  assumes "y < 18014398509481984"
  shows "\<not> (0 < y \<and> 1024 \<le> binExp y)"
proof -
  have "pow2 (53 + 1) = 18014398509481984" by (simp add: pow2_def)
  with assms have "y < pow2 (53 + 1)" by simp
  then have "binExp y \<le> 53" by (rule binExp_le) simp
  then show ?thesis by simp
qed

lemma roundDouble_close:
  assumes "1 \<le> a" "a < 9007199254740992"
  shows "\<exists>y. roundDouble a = Num y \<and> \<bar>y - a\<bar> \<le> 1 / 2"
proof -
  define e where "e = binExp a"
  define ulp where "ulp = pow2 (max (e - 52) (- 1074))"
  define m where "m = roundHalfEven (a / ulp)"
  define y where "y = of_int m * ulp"
  from binExp_small[OF assms] have e: "0 \<le> e" "e \<le> 52" by (simp_all add: e_def)
  have ulp_pos: "0 < ulp" by (simp add: ulp_def pow2_pos)
  have "max (e - 52) (- 1074) \<le> 0" using e by simp
  then have "ulp \<le> pow2 0" unfolding ulp_def by (rule pow2_mono)
  then have ulp1: "ulp \<le> 1" by (simp add: pow2_0)
  have "\<bar>of_int m - a / ulp\<bar> \<le> 1 / 2" unfolding m_def by (rule roundHalfEven_close)
  then have "\<bar>of_int m - a / ulp\<bar> * ulp \<le> 1 / 2 * ulp"
    using ulp_pos by (simp add: mult_right_mono)
  moreover have "\<bar>of_int m - a / ulp\<bar> * ulp = \<bar>y - a\<bar>"
  proof -
    have "\<bar>of_int m - a / ulp\<bar> * ulp = \<bar>(of_int m - a / ulp) * ulp\<bar>"
      using ulp_pos by (simp add: abs_mult)
    also have "(of_int m - a / ulp) * ulp = y - a"
      using ulp_pos by (simp add: y_def algebra_simps)
    finally show ?thesis .
  qed
  ultimately have close: "\<bar>y - a\<bar> \<le> 1 / 2" using ulp1 by linarith
  then have "y < 18014398509481984" using assms(2) by linarith
  then have no: "\<not> (0 < y \<and> 1024 \<le> binExp y)" by (rule not_overflow)
  have "0 < a" using assms(1) by simp
  then have "roundDouble a = Num y"
    using no unfolding roundDouble_pos[OF \<open>0 < a\<close>] y_def m_def ulp_def e_def by simp
  with close show ?thesis by blast
qed

lemma roundDouble_2_53: "roundDouble 9007199254740992 = Num 9007199254740992"
  by code_simp

lemma roundDouble_int:
  assumes "1 \<le> n" "n \<le> 9007199254740992"
  shows "roundDouble (of_int n) = Num (of_int n)"
proof (cases "n = 9007199254740992")
  case True
  then show ?thesis by (simp add: roundDouble_2_53)
next
  case False
  define a :: rat where "a = of_int n"
  have a: "1 \<le> a" "a < 9007199254740992" using assms False by (simp_all add: a_def)
  define e where "e = binExp a"
  define ulp where "ulp = pow2 (max (e - 52) (- 1074))"
  from binExp_small[OF a] have e: "0 \<le> e" "e \<le> 52" by (simp_all add: e_def)
  have mx: "max (e - 52) (- 1074) = e - 52" using e by simp
  have ulp_pos: "0 < ulp" by (simp add: ulp_def pow2_pos)
  have "ulp * pow2 (52 - e) = pow2 0" unfolding ulp_def mx pow2_add[symmetric] by simp
  then have inv: "ulp * pow2 (52 - e) = 1" by (simp add: pow2_0)
  have p: "pow2 (52 - e) = of_int (2 ^ nat (52 - e))" using e by (simp add: pow2_def)
  have "a / ulp = a * pow2 (52 - e)" using inv ulp_pos by (simp add: field_simps)
  also have "\<dots> = of_int (n * 2 ^ nat (52 - e))" unfolding p a_def by simp
  finally have q: "a / ulp = of_int (n * 2 ^ nat (52 - e))" .
  have m: "roundHalfEven (a / ulp) = n * 2 ^ nat (52 - e)"
    unfolding q by (rule roundHalfEven_of_int)
  have "of_int (roundHalfEven (a / ulp)) * ulp = a / ulp * ulp"
    by (simp only: q roundHalfEven_of_int)
  also have "\<dots> = a" using ulp_pos by simp
  finally have y: "of_int (roundHalfEven (a / ulp)) * ulp = a" .
  have "a < 18014398509481984" using a(2) by simp
  then have no: "\<not> (0 < a \<and> 1024 \<le> binExp a)" by (rule not_overflow)
  have "0 < a" using a(1) by simp
  have "roundDouble a = Num a"
    unfolding roundDouble_pos[OF \<open>0 < a\<close>] using y no unfolding ulp_def e_def by simp
  then show ?thesis by (simp add: a_def)
qed

lemma roundDouble_ge1:
  assumes "1 \<le> a"
  shows "roundDouble a = PosInfinity \<or> (\<exists>y. roundDouble a = Num y \<and> 1 \<le> y)"
proof -
  define e where "e = binExp a"
  define ulp where "ulp = pow2 (max (e - 52) (- 1074))"
  define y where "y = of_int (roundHalfEven (a / ulp)) * ulp"
  from expUp_bounds[OF assms] have e: "0 \<le> e" "pow2 e \<le> a"
    using assms by (simp_all add: e_def binExp_ge1)
  have mx: "max (e - 52) (- 1074) = e - 52" using e by simp
  have ulp_pos: "0 < ulp" by (simp add: ulp_def pow2_pos)
  have "ulp * pow2 52 = pow2 e" unfolding ulp_def mx pow2_add[symmetric] by simp
  then have pe: "pow2 e = ulp * 4503599627370496" by (simp add: pow2_52)
  have "4503599627370496 * ulp \<le> a" using e(2) pe by (simp add: mult.commute)
  then have "4503599627370496 \<le> a / ulp" using ulp_pos by (simp add: pos_le_divide_eq)
  then have "of_int 4503599627370496 \<le> a / ulp" by simp
  then have "4503599627370496 \<le> \<lfloor>a / ulp\<rfloor>" by (simp only: le_floor_iff)
  also have "\<dots> \<le> roundHalfEven (a / ulp)" by (rule roundHalfEven_ge_floor)
  finally have "(4503599627370496::rat) \<le> of_int (roundHalfEven (a / ulp))"
    by (metis of_int_le_iff of_int_numeral)
  then have "4503599627370496 * ulp \<le> y" unfolding y_def using ulp_pos by (simp add: mult_right_mono)
  then have "pow2 e \<le> y" using pe by (simp add: mult.commute)
  moreover have "pow2 0 \<le> pow2 e" using e(1) by (rule pow2_mono)
  ultimately have "1 \<le> y" by (simp add: pow2_0)
  have "0 < a" using assms by simp
  show ?thesis
    unfolding roundDouble_pos[OF \<open>0 < a\<close>] using \<open>1 \<le> y\<close> unfolding y_def ulp_def e_def by simp
qed


lemma increment_progress:
  assumes "1 \<le> x" "x \<le> MAX_SAFE_INTEGER"
  shows "\<exists>y. increment (Num x) = Num y \<and> x + 1 / 2 \<le> y"
proof (cases "x + 1 = 9007199254740992")
  case True
  then have "increment (Num x) = Num (x + 1)" by (simp add: roundDouble_2_53)
  then show ?thesis by simp
next
  case False
  with assms have "1 \<le> x + 1" "x + 1 < 9007199254740992"
    by (simp_all add: MAX_SAFE_INTEGER_def)
  from roundDouble_close[OF this] obtain y where y: "roundDouble (x + 1) = Num y" "\<bar>y - (x + 1)\<bar> \<le> 1 / 2"
    by blast
  from y(2) have "x + 1 / 2 \<le> y" by linarith
  with y(1) have "increment (Num x) = Num y \<and> x + 1 / 2 \<le> y" by simp
  then show ?thesis by blast
qed

lemma increment_ge1: "num_le (Num 1) i \<Longrightarrow> num_le (Num 1) (increment i)"
proof (cases i)
  case (Num x)
  assume "num_le (Num 1) i"
  with Num have "1 \<le> x + 1" by simp
  from roundDouble_ge1[OF this] show ?thesis using Num by auto
qed simp_all

lemma increment_int:
  assumes "0 \<le> n" "n < 9007199254740992"
  shows "increment (Num (of_int n)) = Num (of_int (n + 1))"
proof -
  have "roundDouble (of_int (n + 1)) = Num (of_int (n + 1))"
    using assms by (intro roundDouble_int) simp_all
  then show ?thesis by simp
qed

lemma stepsFrom_unfold:
  "stepsFrom i upper = (if num_le i upper then insert i (stepsFrom (increment i) upper) else {})"
proof (cases "num_le i upper")
  case False
  have "stepsFrom i upper = {}"
  proof (rule ccontr)
    assume "stepsFrom i upper \<noteq> {}"
    then obtain k where "\<forall>j \<le> k. num_le ((increment ^^ j) i) upper"
      by (auto simp: stepsFrom_def)
    then have "num_le ((increment ^^ 0) i) upper" by blast
    with False show False by simp
  qed
  with False show ?thesis by simp
next
  case True
  have "stepsFrom i upper = insert i (stepsFrom (increment i) upper)"
  proof (rule set_eqI)
    fix x
    show "x \<in> stepsFrom i upper \<longleftrightarrow> x \<in> insert i (stepsFrom (increment i) upper)"
    proof
      assume "x \<in> stepsFrom i upper"
      then obtain k where k: "x = (increment ^^ k) i" "\<forall>j \<le> k. num_le ((increment ^^ j) i) upper"
        by (auto simp: stepsFrom_def)
      show "x \<in> insert i (stepsFrom (increment i) upper)"
      proof (cases k)
        case 0
        with k show ?thesis by simp
      next
        case (Suc n)
        have "x = (increment ^^ n) (increment i)" using k(1) Suc by (simp add: funpow_swap1)
        moreover have "\<forall>j \<le> n. num_le ((increment ^^ j) (increment i)) upper"
        proof (intro allI impI)
          fix j assume "j \<le> n"
          then have "Suc j \<le> k" using Suc by simp
          with k(2) have "num_le ((increment ^^ Suc j) i) upper" by blast
          then show "num_le ((increment ^^ j) (increment i)) upper" by (simp add: funpow_swap1)
        qed
        ultimately have "x \<in> stepsFrom (increment i) upper" unfolding stepsFrom_def by blast
        then show ?thesis by simp
      qed
    next
      assume "x \<in> insert i (stepsFrom (increment i) upper)"
      then consider "x = i"
        | n where "x = (increment ^^ n) (increment i)"
                  "\<forall>j \<le> n. num_le ((increment ^^ j) (increment i)) upper"
        by (auto simp: stepsFrom_def)
      then show "x \<in> stepsFrom i upper"
      proof cases
        case 1
        have "x = (increment ^^ 0) i" using 1 by simp
        moreover have "\<forall>j \<le> (0::nat). num_le ((increment ^^ j) i) upper" using True by simp
        ultimately show ?thesis unfolding stepsFrom_def by blast
      next
        case 2
        have "x = (increment ^^ Suc n) i" using 2(1) by (simp add: funpow_swap1)
        moreover have "\<forall>j \<le> Suc n. num_le ((increment ^^ j) i) upper"
        proof (intro allI impI)
          fix j assume j: "j \<le> Suc n"
          show "num_le ((increment ^^ j) i) upper"
          proof (cases j)
            case 0
            with True show ?thesis by simp
          next
            case (Suc m)
            with j have "m \<le> n" by simp
            with 2(2) have "num_le ((increment ^^ m) (increment i)) upper" by blast
            then show ?thesis using Suc by (simp add: funpow_swap1)
          qed
        qed
        ultimately show ?thesis unfolding stepsFrom_def by blast
      qed
    qed
  qed
  with True show ?thesis by simp
qed

lemma highlightLoop_stepsFrom:
  assumes a: "highlightLoop i upper hl = Some S"
  shows "S = hl \<union> stepsFrom i upper"
proof (rule highlightLoop.raw_induct[where P = "\<lambda>i upper hl S. S = hl \<union> stepsFrom i upper", OF _ a])
  fix f i upper hl S
  assume IH: "\<And>i upper hl y. f i upper hl = Some y \<Longrightarrow> y = hl \<union> stepsFrom i upper"
    and eq: "(if num_le i upper then f (increment i) upper (insert i hl) else Some hl) = Some S"
  show "S = hl \<union> stepsFrom i upper"
  proof (cases "num_le i upper")
    case True
    with eq have "f (increment i) upper (insert i hl) = Some S" by simp
    then have "S = insert i hl \<union> stepsFrom (increment i) upper" by (rule IH)
    also have "\<dots> = hl \<union> stepsFrom i upper"
      using True by (simp add: stepsFrom_unfold[of i])
    finally show ?thesis .
  next
    case False
    with eq have "S = hl" by simp
    with False show ?thesis by (simp add: stepsFrom_unfold[of i])
  qed
qed

lemma highlightLoop_stuck_aux:
  assumes a: "highlightLoop i upper hl = Some S"
  shows "\<not> (increment i = i \<and> num_le i upper)"
proof (rule highlightLoop.raw_induct[where P = "\<lambda>i upper hl S. \<not> (increment i = i \<and> num_le i upper)", OF _ a])
  fix f i upper hl S
  assume IH: "\<And>i upper hl y. f i upper hl = Some y \<Longrightarrow> \<not> (increment i = i \<and> num_le i upper)"
    and eq: "(if num_le i upper then f (increment i) upper (insert i hl) else Some hl) = Some S"
  show "\<not> (increment i = i \<and> num_le i upper)"
  proof
    assume b: "increment i = i \<and> num_le i upper"
    with eq have "f i upper (insert i hl) = Some S" by simp
    then have "\<not> (increment i = i \<and> num_le i upper)" by (rule IH)
    with b show False by simp
  qed
qed

lemma highlightLoop_stuck:
  "increment i = i \<Longrightarrow> num_le i upper \<Longrightarrow> highlightLoop i upper hl = None"
  using highlightLoop_stuck_aux[of i upper hl] by (cases "highlightLoop i upper hl") auto

lemma highlightLoop_returns_aux:
  "1 \<le> x \<Longrightarrow> u \<le> MAX_SAFE_INTEGER \<Longrightarrow> u - x < of_nat n / 2 \<Longrightarrow>
   \<exists>S. highlightLoop (Num x) (Num u) hl = Some S"
proof (induction n arbitrary: x hl)
  case 0
  then have "\<not> num_le (Num x) (Num u)" by simp
  then show ?case by (simp add: highlightLoop.simps[of "Num x"])
next
  case (Suc n)
  show ?case
  proof (cases "x \<le> u")
    case False
    then show ?thesis by (simp add: highlightLoop.simps[of "Num x"])
  next
    case True
    with Suc.prems have "x \<le> MAX_SAFE_INTEGER" by simp
    from increment_progress[OF Suc.prems(1) this]
    obtain y where y: "increment (Num x) = Num y" "x + 1 / 2 \<le> y" by blast
    have "1 \<le> y" using y(2) Suc.prems(1) by simp
    moreover have "u - y < of_nat n / 2" using y(2) Suc.prems(3) by (simp add: field_simps)
    ultimately obtain S where "highlightLoop (Num y) (Num u) (insert (Num x) hl) = Some S"
      using Suc.IH[of y "insert (Num x) hl"] Suc.prems(2) by blast
    then show ?thesis using True y(1) by (simp add: highlightLoop.simps[of "Num x"])
  qed
qed

lemma highlightLoop_returns:
  assumes "1 \<le> x" "u \<le> MAX_SAFE_INTEGER"
  shows "\<exists>S. highlightLoop (Num x) (Num u) hl = Some S"
proof -
  obtain n :: nat where "(u - x) * 2 < of_nat n" using reals_Archimedean2 by blast
  then have "u - x < of_nat n / 2" by (simp add: field_simps)
  with assms show ?thesis by (rule highlightLoop_returns_aux)
qed


lemma num_le_trans: "num_le a b \<Longrightarrow> num_le b c \<Longrightarrow> num_le a c"
  by (cases a; cases b; cases c) simp_all

lemma within_numberWithin:
  "isNumWithinInclusiveRange (Some n) (Num 1) maxLineNumber \<longleftrightarrow> numberWithin maxLineNumber n"
  by (simp add: isNumWithinInclusiveRange_def numberWithin_def isNaN_def num_ge_def)

lemma length_2_iff: "length xs = 2 \<longleftrightarrow> (\<exists>a b. xs = [a, b])"
  by (auto simp: length_Suc_conv numeral_2_eq_2)

lemma rangeStep_pair:
  assumes "\<not> numberWithin maxLineNumber (toNumber tok)" "split CHR ''-'' (trim tok) = [a, b]"
  shows "rangeStep maxLineNumber tok hl =
     (if numberWithin maxLineNumber (toNumber a) \<and> numberWithin maxLineNumber (toNumber b)
         \<and> num_le (toNumber a) (toNumber b)
      then highlightLoop (toNumber a) (toNumber b) hl
      else Some hl)"
  using assms by (simp add: rangeStep_def within_numberWithin Let_def)

lemma rangeStep_single:
  assumes "numberWithin maxLineNumber (toNumber tok)"
  shows "rangeStep maxLineNumber tok hl = Some (insert (toNumber tok) hl)"
  using assms by (simp add: rangeStep_def within_numberWithin Let_def)

lemma rangeStep_other:
  assumes "\<not> numberWithin maxLineNumber (toNumber tok)" "\<nexists>a b. split CHR ''-'' (trim tok) = [a, b]"
  shows "rangeStep maxLineNumber tok hl = Some hl"
  using assms by (simp add: rangeStep_def within_numberWithin Let_def length_2_iff)

lemma tokenLines_pair:
  assumes "\<not> accepted (toNumber tok)" "split CHR ''-'' (trim tok) = [a, b]"
  shows "tokenLines accepted between tok =
     (if accepted (toNumber a) \<and> accepted (toNumber b) \<and> num_le (toNumber a) (toNumber b)
      then between (toNumber a) (toNumber b) else {})"
  using assms by (simp add: tokenLines_def)

lemma tokenLines_other:
  assumes "\<not> accepted (toNumber tok)" "\<nexists>a b. split CHR ''-'' (trim tok) = [a, b]"
  shows "tokenLines accepted between tok = {}"
  using assms by (simp add: tokenLines_def split: list.splits)

lemma rangeStep_tokenLines:
  assumes "rangeStep maxLineNumber tok hl = Some S"
  shows "S = hl \<union> tokenLines (numberWithin maxLineNumber) stepsFrom tok"
proof (cases "numberWithin maxLineNumber (toNumber tok)")
  case True
  then have "tokenLines (numberWithin maxLineNumber) stepsFrom tok = {toNumber tok}"
    by (simp add: tokenLines_def)
  with assms rangeStep_single[OF True, of hl] show ?thesis by simp
next
  case False
  show ?thesis
  proof (cases "\<exists>a b. split CHR ''-'' (trim tok) = [a, b]")
    case True
    then obtain a b where ab: "split CHR ''-'' (trim tok) = [a, b]" by blast
    show ?thesis
    proof (cases "numberWithin maxLineNumber (toNumber a) \<and> numberWithin maxLineNumber (toNumber b)
         \<and> num_le (toNumber a) (toNumber b)")
      case True
      with assms have "highlightLoop (toNumber a) (toNumber b) hl = Some S"
        by (simp add: rangeStep_pair[OF False ab])
      then have "S = hl \<union> stepsFrom (toNumber a) (toNumber b)" by (rule highlightLoop_stepsFrom)
      with True show ?thesis by (simp add: tokenLines_pair[where accepted = "numberWithin maxLineNumber", OF False ab])
    next
      case no: False
      with assms have "S = hl" by (simp add: rangeStep_pair[OF False ab])
      moreover have "tokenLines (numberWithin maxLineNumber) stepsFrom tok = {}"
        using no by (simp only: tokenLines_pair[where accepted = "numberWithin maxLineNumber", OF False ab] if_False)
      ultimately show ?thesis by simp
    qed
  next
    case no: False
    with assms False show ?thesis by (simp add: rangeStep_other tokenLines_other)
  qed
qed

lemma fold_bind_None:
  "fold (\<lambda>token highlightedLines. Option.bind highlightedLines (f token)) toks None = None"
  by (induction toks) simp_all

lemma fold_rangeStep:
  "fold (\<lambda>token highlightedLines. Option.bind highlightedLines (rangeStep maxLineNumber token))
     toks (Some hl) = Some S \<Longrightarrow>
   S = hl \<union> (\<Union>tok \<in> set toks. tokenLines (numberWithin maxLineNumber) stepsFrom tok)"
proof (induction toks arbitrary: hl)
  case Nil
  then show ?case by simp
next
  case (Cons t ts)
  show ?case
  proof (cases "rangeStep maxLineNumber t hl")
    case None
    with Cons.prems show ?thesis by (simp add: fold_bind_None)
  next
    case (Some h)
    with Cons.prems have "fold (\<lambda>token highlightedLines.
        Option.bind highlightedLines (rangeStep maxLineNumber token)) ts (Some h) = Some S"
      by simp
    then have "S = h \<union> (\<Union>tok \<in> set ts. tokenLines (numberWithin maxLineNumber) stepsFrom tok)"
      by (rule Cons.IH)
    moreover have "h = hl \<union> tokenLines (numberWithin maxLineNumber) stepsFrom t"
      using Some by (rule rangeStep_tokenLines)
    ultimately show ?thesis by auto
  qed
qed

lemma parse_fold:
  "s \<noteq> [] \<Longrightarrow>
   parseCodeHighlightRanges (Some s) maxLineNumber =
     (case fold (\<lambda>token highlightedLines.
                  Option.bind highlightedLines (rangeStep maxLineNumber token))
             (split CHR '','' s) (Some {}) of
        Some highlightedLines \<Rightarrow> Returns highlightedLines
      | None \<Rightarrow> Diverges)"
  by (simp add: parseCodeHighlightRanges_def)

lemma parse_empty:
  "parseCodeHighlightRanges None maxLineNumber = Returns {}"
  "parseCodeHighlightRanges (Some []) maxLineNumber = Returns {}"
  by (simp_all add: parseCodeHighlightRanges_def)

lemma parse_never_throws: "parseCodeHighlightRanges raw maxLineNumber \<noteq> Throws err"
  by (simp add: parseCodeHighlightRanges_def split: option.splits)

lemma parse_amended:
  assumes "parseCodeHighlightRanges raw maxLineNumber = Returns S"
  shows "S = parseRanges_amended raw maxLineNumber"
proof (cases "raw = None \<or> raw = Some []")
  case True
  with assms show ?thesis
    by (auto simp add: parse_empty parseRanges_amended_def parseRanges_def)
next
  case False
  then obtain s where s: "raw = Some s" "s \<noteq> []" by auto
  from assms have "fold (\<lambda>token highlightedLines.
                  Option.bind highlightedLines (rangeStep maxLineNumber token))
             (split CHR '','' s) (Some {}) = Some S"
    by (simp add: s parse_fold split: option.splits)
  from fold_rangeStep[OF this] show ?thesis
    by (simp add: s parseRanges_amended_def parseRanges_def)
qed

lemma rangeStep_returns:
  assumes "safeMax maxLineNumber"
  shows "\<exists>S. rangeStep maxLineNumber tok hl = Some S"
proof (cases "numberWithin maxLineNumber (toNumber tok)")
  case True
  then show ?thesis by (simp add: rangeStep_single)
next
  case False
  show ?thesis
  proof (cases "\<exists>a b. split CHR ''-'' (trim tok) = [a, b]")
    case True
    then obtain a b where ab: "split CHR ''-'' (trim tok) = [a, b]" by blast
    show ?thesis
    proof (cases "numberWithin maxLineNumber (toNumber a) \<and> numberWithin maxLineNumber (toNumber b)
         \<and> num_le (toNumber a) (toNumber b)")
      case True
      then have a: "num_le (Num 1) (toNumber a)" "num_le (toNumber a) maxLineNumber"
        and b: "num_le (toNumber b) maxLineNumber"
        by (simp_all add: numberWithin_def)
      from a(2) assms have m: "num_le maxLineNumber (Num MAX_SAFE_INTEGER)"
        by (cases maxLineNumber; cases "toNumber a") (simp_all add: safeMax_def isNaN_def)
      from True have ab_le: "num_le (toNumber a) (toNumber b)" by simp
      have bm: "num_le (toNumber b) (Num MAX_SAFE_INTEGER)" using b m by (rule num_le_trans)
      have am: "num_le (toNumber a) (Num MAX_SAFE_INTEGER)" using ab_le bm by (rule num_le_trans)
      from a(1) am obtain x where x: "toNumber a = Num x" "1 \<le> x"
        by (cases "toNumber a") simp_all
      from ab_le bm x obtain u where u: "toNumber b = Num u" "u \<le> MAX_SAFE_INTEGER"
        by (cases "toNumber b") simp_all
      from highlightLoop_returns[OF x(2) u(2), of hl] show ?thesis
        using True by (simp add: rangeStep_pair[OF False ab] x u)
    next
      case no: False
      then have "rangeStep maxLineNumber tok hl = Some hl"
        by (simp only: rangeStep_pair[OF False ab] if_False)
      then show ?thesis by simp
    qed
  next
    case no: False
    with False show ?thesis by (simp add: rangeStep_other)
  qed
qed

lemma fold_returns:
  assumes "safeMax maxLineNumber"
  shows "\<exists>S. fold (\<lambda>token highlightedLines. Option.bind highlightedLines (rangeStep maxLineNumber token))
     toks (Some hl) = Some S"
proof (induction toks arbitrary: hl)
  case Nil
  show ?case by simp
next
  case (Cons t ts)
  from rangeStep_returns[OF assms, of t hl] obtain h where "rangeStep maxLineNumber t hl = Some h"
    by blast
  with Cons[of h] show ?case by simp
qed

lemma parse_returns:
  assumes "safeMax maxLineNumber"
  shows "\<exists>S. parseCodeHighlightRanges raw maxLineNumber = Returns S"
proof (cases "raw = None \<or> raw = Some []")
  case True
  then show ?thesis by (auto simp add: parse_empty)
next
  case False
  then obtain s where s: "raw = Some s" "s \<noteq> []" by auto
  from fold_returns[OF assms, of "split CHR '','' s" "{}"] show ?thesis
    by (auto simp add: s parse_fold)
qed

lemma funpow_ge1: "num_le (Num 1) l \<Longrightarrow> num_le (Num 1) ((increment ^^ k) l)"
  by (induction k) (simp_all add: increment_ge1)

lemma stepsFrom_bounds:
  assumes "x \<in> stepsFrom lower upper" "num_le (Num 1) lower"
  shows "num_le (Num 1) x \<and> num_le x upper"
proof -
  from assms(1) obtain k where k: "x = (increment ^^ k) lower"
      "\<forall>j \<le> k. num_le ((increment ^^ j) lower) upper"
    by (auto simp: stepsFrom_def)
  from k(2) have "num_le ((increment ^^ k) lower) upper" by blast
  with k(1) funpow_ge1[OF assms(2), of k] show ?thesis by simp
qed

lemma tokenLines_bounds:
  assumes "x \<in> tokenLines (numberWithin maxLineNumber) stepsFrom tok"
  shows "num_le (Num 1) x \<and> num_le x maxLineNumber"
proof (cases "numberWithin maxLineNumber (toNumber tok)")
  case True
  with assms have "x = toNumber tok" by (simp add: tokenLines_def)
  with True show ?thesis by (simp add: numberWithin_def)
next
  case False
  show ?thesis
  proof (cases "\<exists>a b. split CHR ''-'' (trim tok) = [a, b]")
    case True
    then obtain a b where ab: "split CHR ''-'' (trim tok) = [a, b]" by blast
    from assms have c: "numberWithin maxLineNumber (toNumber a)" "numberWithin maxLineNumber (toNumber b)"
       "x \<in> stepsFrom (toNumber a) (toNumber b)"
      by (simp_all add: tokenLines_pair[where accepted = "numberWithin maxLineNumber", OF False ab] split: if_splits)
    from c(1) have "num_le (Num 1) (toNumber a)" by (simp add: numberWithin_def)
    from stepsFrom_bounds[OF c(3) this] have "num_le (Num 1) x" "num_le x (toNumber b)" by simp_all
    moreover from c(2) have "num_le (toNumber b) maxLineNumber" by (simp add: numberWithin_def)
    ultimately show ?thesis by (blast intro: num_le_trans)
  next
    case no: False
    with assms False show ?thesis by (simp add: tokenLines_other)
  qed
qed

lemma members_bounds:
  assumes "parseCodeHighlightRanges raw maxLineNumber = Returns S" "x \<in> S"
  shows "num_le (Num 1) x \<and> num_le x maxLineNumber"
proof -
  from assms(1) have "S = parseRanges_amended raw maxLineNumber" by (rule parse_amended)
  with assms(2) obtain tok where "x \<in> tokenLines (numberWithin maxLineNumber) stepsFrom tok"
    by (auto simp: parseRanges_amended_def parseRanges_def split: option.splits if_splits)
  then show ?thesis by (rule tokenLines_bounds)
qed

lemma rangeStep_malformed:
  assumes "\<not> wellFormedToken maxLineNumber tok"
  shows "rangeStep maxLineNumber tok hl = Some hl"
proof -
  from assms have nw: "\<not> numberWithin maxLineNumber (toNumber tok)"
    by (simp add: wellFormedToken_def)
  show ?thesis
  proof (cases "\<exists>a b. split CHR ''-'' (trim tok) = [a, b]")
    case True
    then obtain a b where ab: "split CHR ''-'' (trim tok) = [a, b]" by blast
    with assms have "\<not> (numberWithin maxLineNumber (toNumber a) \<and> numberWithin maxLineNumber (toNumber b)
         \<and> num_le (toNumber a) (toNumber b))"
      by (simp add: wellFormedToken_def)
    then show ?thesis by (simp only: rangeStep_pair[OF nw ab] if_False)
  next
    case False
    with nw show ?thesis by (simp add: rangeStep_other)
  qed
qed

lemma fold_malformed:
  assumes "\<forall>tok \<in> set toks. \<not> wellFormedToken maxLineNumber tok"
  shows "fold (\<lambda>token highlightedLines. Option.bind highlightedLines (rangeStep maxLineNumber token))
     toks (Some hl) = Some hl"
  using assms by (induction toks) (simp_all add: rangeStep_malformed)

lemma funpow_int:
  "0 \<le> a \<Longrightarrow> a + int k \<le> 9007199254740992 \<Longrightarrow>
   (increment ^^ k) (Num (of_int a)) = Num (of_int (a + int k))"
proof (induction k)
  case 0
  show ?case by simp
next
  case (Suc k)
  then have "(increment ^^ k) (Num (of_int a)) = Num (of_int (a + int k))" by simp
  moreover have "increment (Num (of_int (a + int k))) = Num (of_int (a + int k + 1))"
    using Suc.prems by (intro increment_int) simp_all
  ultimately show ?case by (simp add: add.assoc)
qed

lemma stepsFrom_integers:
  assumes "0 \<le> a" "u \<le> MAX_SAFE_INTEGER"
  shows "stepsFrom (Num (of_int a)) (Num u) = integersBetween (Num (of_int a)) (Num u)"
proof -
  have fl: "\<lfloor>u\<rfloor> \<le> 9007199254740991"
  proof -
    have "of_int \<lfloor>u\<rfloor> \<le> u" by simp
    with assms(2) have "(of_int \<lfloor>u\<rfloor> :: rat) \<le> of_int 9007199254740991"
      by (simp add: MAX_SAFE_INTEGER_def)
    then show ?thesis by (simp only: of_int_le_iff)
  qed
  have fwd: "(\<forall>j \<le> k. num_le ((increment ^^ j) (Num (of_int a))) (Num u)) \<Longrightarrow>
      a + int k \<le> \<lfloor>u\<rfloor> \<and> (increment ^^ k) (Num (of_int a)) = Num (of_int (a + int k))" for k
  proof (induction k)
    case 0
    then have "num_le ((increment ^^ 0) (Num (of_int a))) (Num u)" by blast
    then show ?case by (simp add: le_floor_iff)
  next
    case (Suc k)
    then have "a + int k \<le> \<lfloor>u\<rfloor>" by simp
    with fl have "a + int (Suc k) \<le> 9007199254740992" by linarith
    from funpow_int[OF assms(1) this]
    have eq: "(increment ^^ Suc k) (Num (of_int a)) = Num (of_int (a + int (Suc k)))" .
    from Suc.prems have "num_le ((increment ^^ Suc k) (Num (of_int a))) (Num u)" by blast
    with eq have "of_int (a + int (Suc k)) \<le> u" by simp
    then have "a + int (Suc k) \<le> \<lfloor>u\<rfloor>" by (simp only: le_floor_iff)
    with eq show ?case by simp
  qed
  show ?thesis
  proof (rule set_eqI)
    fix x
    show "x \<in> stepsFrom (Num (of_int a)) (Num u) \<longleftrightarrow> x \<in> integersBetween (Num (of_int a)) (Num u)"
    proof
      assume "x \<in> stepsFrom (Num (of_int a)) (Num u)"
      then obtain k where k: "x = (increment ^^ k) (Num (of_int a))"
          "\<forall>j \<le> k. num_le ((increment ^^ j) (Num (of_int a))) (Num u)"
        by (auto simp: stepsFrom_def)
      from fwd[OF k(2)] k(1) have "x = Num (of_int (a + int k))" "a + int k \<le> \<lfloor>u\<rfloor>" by simp_all
      moreover have "a \<le> a + int k" by simp
      ultimately have "a + int k \<in> {\<lceil>rat_of_int a\<rceil> .. \<lfloor>u\<rfloor>}" "x = Num (of_int (a + int k))"
        by simp_all
      then have "x \<in> (\<lambda>k. Num (of_int k)) ` {\<lceil>rat_of_int a\<rceil> .. \<lfloor>u\<rfloor>}" by blast
      then show "x \<in> integersBetween (Num (of_int a)) (Num u)"
        by (simp add: integersBetween_def)
    next
      assume "x \<in> integersBetween (Num (of_int a)) (Num u)"
      then obtain z where z: "x = Num (of_int z)" "a \<le> z" "z \<le> \<lfloor>u\<rfloor>"
        by (auto simp: integersBetween_def)
      define k where "k = nat (z - a)"
      have zk: "z = a + int k" using z(2) by (simp add: k_def)
      have all: "\<forall>j \<le> k. num_le ((increment ^^ j) (Num (of_int a))) (Num u)"
      proof (intro allI impI)
        fix j assume j: "j \<le> k"
        then have le: "a + int j \<le> \<lfloor>u\<rfloor>" using z(3) zk by linarith
        with fl have "a + int j \<le> 9007199254740992" by linarith
        from funpow_int[OF assms(1) this] have "(increment ^^ j) (Num (of_int a)) = Num (of_int (a + int j))" .
        moreover have "of_int (a + int j) \<le> u" using le by (simp only: le_floor_iff)
        ultimately show "num_le ((increment ^^ j) (Num (of_int a))) (Num u)" by simp
      qed
      have "a + int k \<le> 9007199254740992" using z(3) zk fl by linarith
      from funpow_int[OF assms(1) this] have "x = (increment ^^ k) (Num (of_int a))"
        using z(1) zk by simp
      with all show "x \<in> stepsFrom (Num (of_int a)) (Num u)" unfolding stepsFrom_def by blast
    qed
  qed
qed

lemma parse_single_token:
  "split CHR '','' s = [tok] \<Longrightarrow> s \<noteq> [] \<Longrightarrow>
   parseCodeHighlightRanges (Some s) maxLineNumber =
     (case rangeStep maxLineNumber tok {} of Some S \<Rightarrow> Returns S | None \<Rightarrow> Diverges)"
  by (simp add: parse_fold)

text \<open>
  At \<open>2^53\<close> the increment of the loop gives \<open>2^53\<close> back (\<open>2^53 + 1\<close> rounds to the even
  neighbour), so the loop for the range from \<open>2^53\<close> to \<open>2^53\<close> never ends.
\<close>

lemma parse_2_53_loops:
  "parseCodeHighlightRanges (Some ''9007199254740992-9007199254740992'') (Num 9007199254740992) = Diverges"
proof -
  have t1: "toNumber ''9007199254740992-9007199254740992'' = NaN" by code_simp
  have t2: "toNumber ''9007199254740992'' = Num 9007199254740992" by code_simp
  have sp: "split CHR ''-'' (trim ''9007199254740992-9007199254740992'')
      = [''9007199254740992'', ''9007199254740992'']" by code_simp
  have sc: "split CHR '','' ''9007199254740992-9007199254740992''
      = [''9007199254740992-9007199254740992'']" by code_simp
  have inc: "increment (Num 9007199254740992) = Num 9007199254740992" by code_simp
  have nw: "\<not> numberWithin (Num 9007199254740992) (toNumber ''9007199254740992-9007199254740992'')"
    by (simp add: t1 numberWithin_def)
  have w: "numberWithin (Num 9007199254740992) (Num 9007199254740992)"
    by (simp add: numberWithin_def)
  have "rangeStep (Num 9007199254740992) ''9007199254740992-9007199254740992'' {}
      = highlightLoop (Num 9007199254740992) (Num 9007199254740992) {}"
    using w by (simp add: rangeStep_pair[OF nw sp] t2)
  also have "\<dots> = None" using inc by (rule highlightLoop_stuck) simp
  finally show ?thesis by (simp add: parse_single_token[OF sc])
qed

text \<open>
  Claim C1, as stated: for every input and every maximum the parser equals the reference
  algorithm of the specification, which accepts the finite numbers within \<open>[1, max]\<close> and
  adds every integer of \<open>[lower, upper]\<close> for a range token. That fails in three ways.
  The loop of the code starts at \<open>lower\<close> itself and counts up by one: \<open>"1.5-3.5"\<close> with
  maximum 10 gives \<open>{1.5, 2.5, 3.5}\<close>, not \<open>{2, 3}\<close>. The code accepts every number within
  the bounds that is not \<open>NaN\<close>: \<open>"Infinity"\<close> with the maximum \<open>Infinity\<close> gives the member
  \<open>Infinity\<close>. And from \<open>2^53\<close> on the loop does not end: for the range from \<open>2^53\<close> to
  \<open>2^53\<close> with the maximum \<open>2^53\<close> the call does not return, where the reference
  algorithm gives \<open>{2^53}\<close>.
\<close>

theorem parseCodeHighlightRanges_spec_counterexample:
  "parseCodeHighlightRanges (Some ''1.5-3.5'') (Num 10) = Returns {Num (3 / 2), Num (5 / 2), Num (7 / 2)}
   \<and> parseRanges_spec (Some ''1.5-3.5'') (Num 10) = {Num 2, Num 3}
   \<and> parseCodeHighlightRanges (Some ''Infinity'') PosInfinity = Returns {PosInfinity}
   \<and> parseRanges_spec (Some ''Infinity'') PosInfinity = {}
   \<and> parseCodeHighlightRanges (Some ''9007199254740992-9007199254740992'') (Num 9007199254740992) = Diverges
   \<and> parseRanges_spec (Some ''9007199254740992-9007199254740992'') (Num 9007199254740992)
       = {Num 9007199254740992}"
proof (intro conjI)
  show "parseCodeHighlightRanges (Some ''1.5-3.5'') (Num 10) = Returns {Num (3 / 2), Num (5 / 2), Num (7 / 2)}"
    by code_simp
  show "parseRanges_spec (Some ''1.5-3.5'') (Num 10) = {Num 2, Num 3}"
    by code_simp
  show "parseCodeHighlightRanges (Some ''Infinity'') PosInfinity = Returns {PosInfinity}"
    by code_simp
  show "parseRanges_spec (Some ''Infinity'') PosInfinity = {}"
    by code_simp
  show "parseCodeHighlightRanges (Some ''9007199254740992-9007199254740992'') (Num 9007199254740992) = Diverges"
    by (rule parse_2_53_loops)
  show "parseRanges_spec (Some ''9007199254740992-9007199254740992'') (Num 9007199254740992)
       = {Num 9007199254740992}"
    by code_simp
qed


text \<open>
  Conversions round to the nearest double: a literal of nineteen nines after the point is
  the number one, \<open>2^53 + 1\<close> is \<open>2^53\<close>, and the sum \<open>1.03 + 1\<close> is above the double of
  \<open>2.03\<close>, so the range \<open>1.03-2.03\<close> holds the one member \<open>1.03\<close>.
\<close>

lemma toNumber_rounds:
  "toNumber ''0.9999999999999999999'' = Num 1
   \<and> toNumber ''1.0000000000000000001'' = Num 1
   \<and> toNumber ''9007199254740993'' = Num 9007199254740992
   \<and> toNumber ''1.03'' = Num (4638707616191611 / 4503599627370496)
   \<and> parseCodeHighlightRanges (Some ''1.03-2.03'') (Num 10)
       = Returns {Num (4638707616191611 / 4503599627370496)}"
  by code_simp

text \<open>The length of an array is a safe maximum.\<close>

lemma safeMax_array_length: "n \<le> 4294967295 \<Longrightarrow> safeMax (Num (of_nat n))"
proof -
  assume "n \<le> 4294967295"
  then have "(of_nat n :: rat) \<le> of_nat 4294967295" by (simp only: of_nat_le_iff)
  then show ?thesis by (simp add: safeMax_def MAX_SAFE_INTEGER_def)
qed

text \<open>
  Claim C1, amended: for every input string (or \<open>null\<close>) and every maximum, \<open>NaN\<close> and the
  infinities included, a set that the parser returns is the set of the reference
  algorithm with two changes: a number is accepted when it is within \<open>[1, max]\<close> and not
  \<open>NaN\<close>, and a range token adds \<open>lower\<close>, \<open>++lower\<close>, ... (increments of a double) as long
  as the value is at most \<open>upper\<close>. The parser returns, with that set, whenever the
  maximum is \<open>NaN\<close> or at most \<open>Number.MAX_SAFE_INTEGER\<close>. Under that bound a range whose
  lower bound is an integer adds exactly the integers of \<open>[lower, upper]\<close>. The two
  examples of the claim hold: \<open>"13,24-26,25-27"\<close> with maximum 100 gives
  \<open>{13, 24, 25, 26, 27}\<close>, and \<open>"3-1"\<close> with maximum 10 gives the empty set.
\<close>

theorem parseCodeHighlightRanges_amended:
  "(parseCodeHighlightRanges raw maxLineNumber = Returns S \<longrightarrow> S = parseRanges_amended raw maxLineNumber)
   \<and> (safeMax maxLineNumber \<longrightarrow>
        parseCodeHighlightRanges raw maxLineNumber = Returns (parseRanges_amended raw maxLineNumber))
   \<and> (0 \<le> a \<and> u \<le> MAX_SAFE_INTEGER \<longrightarrow>
        stepsFrom (Num (of_int a)) (Num u) = integersBetween (Num (of_int a)) (Num u))
   \<and> parseCodeHighlightRanges (Some ''13,24-26,25-27'') (Num 100)
        = Returns {Num 13, Num 24, Num 25, Num 26, Num 27}
   \<and> parseCodeHighlightRanges (Some ''3-1'') (Num 10) = Returns {}"
proof (intro conjI impI)
  show "S = parseRanges_amended raw maxLineNumber"
    if "parseCodeHighlightRanges raw maxLineNumber = Returns S"
    using that by (rule parse_amended)
  show "parseCodeHighlightRanges raw maxLineNumber = Returns (parseRanges_amended raw maxLineNumber)"
    if "safeMax maxLineNumber"
  proof -
    from parse_returns[OF that] obtain T where T: "parseCodeHighlightRanges raw maxLineNumber = Returns T"
      by blast
    from parse_amended[OF T] T show ?thesis by simp
  qed
  show "stepsFrom (Num (of_int a)) (Num u) = integersBetween (Num (of_int a)) (Num u)"
    if "0 \<le> a \<and> u \<le> MAX_SAFE_INTEGER"
    using that by (simp add: stepsFrom_integers)
  show "parseCodeHighlightRanges (Some ''13,24-26,25-27'') (Num 100)
        = Returns {Num 13, Num 24, Num 25, Num 26, Num 27}"
    by code_simp
  show "parseCodeHighlightRanges (Some ''3-1'') (Num 10) = Returns {}"
    by code_simp
qed

theorem parseCodeHighlightRanges_amended_witness:
  "parseCodeHighlightRanges (Some ''2-4'') (Num 10) = Returns {Num 2, Num 3, Num 4}
   \<and> parseRanges_amended (Some ''2-4'') (Num 10) = {Num 2, Num 3, Num 4}
   \<and> safeMax (Num 10)
   \<and> (0::int) \<le> 2 \<and> 4 \<le> MAX_SAFE_INTEGER
   \<and> stepsFrom (Num (of_int 2)) (Num 4) = integersBetween (Num (of_int 2)) (Num 4)"
proof -
  have h1: "parseCodeHighlightRanges (Some ''2-4'') (Num 10) = Returns {Num 2, Num 3, Num 4}"
    by code_simp
  have h2: "safeMax (Num 10)"
    by code_simp
  have h3: "(0::int) \<le> 2 \<and> 4 \<le> MAX_SAFE_INTEGER"
    by code_simp
  note t = parseCodeHighlightRanges_amended
    [where raw = "Some ''2-4''" and maxLineNumber = "Num 10" and S = "{Num 2, Num 3, Num 4}"
       and a = 2 and u = 4]
  from t h1 have c1: "{Num 2, Num 3, Num 4} = parseRanges_amended (Some ''2-4'') (Num 10)"
    by blast
  from t h3 have c2: "stepsFrom (Num (of_int 2)) (Num 4) = integersBetween (Num (of_int 2)) (Num 4)"
    by blast
  from h1 h2 h3 c1 c2 show ?thesis by simp
qed

text \<open>
  Claim C5: for every input string (or \<open>null\<close>) and every maximum, every member of a set
  that the parser returns lies within \<open>[1, maxLineNumber]\<close>. A malformed or out-of-range
  token (one that is neither a number within the bounds nor two such numbers in order
  around one hyphen) leaves the set as it is, and an input of such tokens only gives the
  empty set: \<open>7x\<close> is not a number and adds nothing. The parser never throws (the one
  operation that can, \<open>split\<close> on \<open>null\<close>, is behind the guard), and it returns a set
  whenever the maximum is \<open>NaN\<close> or at most \<open>Number.MAX_SAFE_INTEGER\<close>, as every array
  length is. In particular
  \<open>"7x,abc,5-,-5,3-1,0,200,1-2-3,,4"\<close> with maximum 10 gives \<open>{4}\<close> and \<open>"0,5,200"\<close> with
  maximum 10 gives \<open>{5}\<close>.
\<close>

theorem parseCodeHighlightRanges_within_bounds:
  "(parseCodeHighlightRanges raw maxLineNumber = Returns S \<longrightarrow>
      (\<forall>x \<in> S. num_le (Num 1) x \<and> num_le x maxLineNumber))
   \<and> (\<not> wellFormedToken maxLineNumber tok \<longrightarrow> rangeStep maxLineNumber tok hl = Some hl)
   \<and> ((\<forall>tok \<in> set (split CHR '','' s). \<not> wellFormedToken maxLineNumber tok) \<longrightarrow>
        parseCodeHighlightRanges (Some s) maxLineNumber = Returns {})
   \<and> parseCodeHighlightRanges raw maxLineNumber \<noteq> Throws err
   \<and> (safeMax maxLineNumber \<longrightarrow> (\<exists>S. parseCodeHighlightRanges raw maxLineNumber = Returns S))
   \<and> toNumber ''7x'' = NaN
   \<and> parseCodeHighlightRanges (Some ''7x,abc,5-,-5,3-1,0,200,1-2-3,,4'') (Num 10) = Returns {Num 4}
   \<and> parseCodeHighlightRanges (Some ''0,5,200'') (Num 10) = Returns {Num 5}"
proof (intro conjI impI)
  show "\<forall>x \<in> S. num_le (Num 1) x \<and> num_le x maxLineNumber"
    if "parseCodeHighlightRanges raw maxLineNumber = Returns S"
    using members_bounds[OF that] by blast
  show "rangeStep maxLineNumber tok hl = Some hl" if "\<not> wellFormedToken maxLineNumber tok"
    using that by (rule rangeStep_malformed)
  show "parseCodeHighlightRanges (Some s) maxLineNumber = Returns {}"
    if "\<forall>tok \<in> set (split CHR '','' s). \<not> wellFormedToken maxLineNumber tok"
    using fold_malformed[OF that, of "{}"] by (cases "s = []") (simp_all add: parse_empty parse_fold)
  show "parseCodeHighlightRanges raw maxLineNumber \<noteq> Throws err"
    by (rule parse_never_throws)
  show "\<exists>S. parseCodeHighlightRanges raw maxLineNumber = Returns S" if "safeMax maxLineNumber"
    using that by (rule parse_returns)
  show "toNumber ''7x'' = NaN"
    by code_simp
  show "parseCodeHighlightRanges (Some ''7x,abc,5-,-5,3-1,0,200,1-2-3,,4'') (Num 10) = Returns {Num 4}"
    by code_simp
  show "parseCodeHighlightRanges (Some ''0,5,200'') (Num 10) = Returns {Num 5}"
    by code_simp
qed

theorem parseCodeHighlightRanges_within_bounds_witness:
  "parseCodeHighlightRanges (Some ''0,5,200'') (Num 10) = Returns {Num 5}
   \<and> num_le (Num 1) (Num 5) \<and> num_le (Num 5) (Num 10)
   \<and> \<not> wellFormedToken (Num 10) ''7x''
   \<and> rangeStep (Num 10) ''7x'' {Num 5} = Some {Num 5}
   \<and> parseCodeHighlightRanges (Some ''7x,abc'') (Num 10) = Returns {}
   \<and> safeMax (Num 10)"
proof -
  have h1: "parseCodeHighlightRanges (Some ''0,5,200'') (Num 10) = Returns {Num 5}"
    by code_simp
  have h2: "\<not> wellFormedToken (Num 10) ''7x''"
    by code_simp
  have h3: "\<forall>tok \<in> set (split CHR '','' ''7x,abc''). \<not> wellFormedToken (Num 10) tok"
    by code_simp
  have h4: "safeMax (Num 10)"
    by code_simp
  note t = parseCodeHighlightRanges_within_bounds
    [where raw = "Some ''0,5,200''" and maxLineNumber = "Num 10" and S = "{Num 5}"
       and tok = "''7x''" and hl = "{Num 5}" and s = "''7x,abc''"]
  from t h1 have c1: "num_le (Num 1) (Num 5) \<and> num_le (Num 5) (Num 10)"
    by blast
  from t h2 have c2: "rangeStep (Num 10) ''7x'' {Num 5} = Some {Num 5}"
    by blast
  from t h3 have c3: "parseCodeHighlightRanges (Some ''7x,abc'') (Num 10) = Returns {}"
    by blast
  from h1 h2 h4 c1 c2 c3 show ?thesis by (simp only: simp_thms)
qed

section \<open>Properties of content extraction\<close>

lemma fold_appendChild:
  "fold (\<lambda>p r'. appendChild r' p) ps (Element t as acc) = Element t as (acc @ ps)"
  by (induction ps arbitrary: acc) simp_all

lemma joinWith_Cons:
  "joinWith sep (x # xs) = x @ (if xs = [] then [] else sep @ joinWith sep xs)"
  by (cases xs) simp_all

lemma appendLines_joinWith:
  "n = i + length lines \<Longrightarrow>
   appendLines el n i lines (Element t as acc) =
   Element t as (acc @ joinWith [Text [CHR 0x0A]]
       (map (\<lambda>segment. if segment = [] then [] else [setTextContent (cloneNode el) segment]) lines))"
proof (induction lines arbitrary: i acc)
  case Nil
  then show ?case by simp
next
  case (Cons line lines)
  define piece where
    "piece = (\<lambda>segment. if segment = [] then [] else [setTextContent (cloneNode el) segment])"
  define acc' where
    "acc' = acc @ piece line @ (if lines = [] then [] else [Text [CHR 0x0A]])"
  have lt: "i < n - 1 \<longleftrightarrow> lines \<noteq> []"
    using Cons.prems by (cases lines) simp_all
  have step: "appendLines el n i (line # lines) (Element t as acc) =
              appendLines el n (Suc i) lines (Element t as acc')"
    using lt by (simp add: Let_def acc'_def piece_def)
  have n: "n = Suc i + length lines" using Cons.prems by simp
  have "appendLines el n (Suc i) lines (Element t as acc') =
        Element t as (acc' @ joinWith [Text [CHR 0x0A]] (map piece lines))"
    unfolding piece_def by (rule Cons.IH[OF n])
  moreover have "acc' @ joinWith [Text [CHR 0x0A]] (map piece lines) =
        acc @ joinWith [Text [CHR 0x0A]] (map piece (line # lines))"
    by (simp add: acc'_def joinWith_Cons)
  ultimately show ?case
    using step unfolding piece_def by simp
qed

lemma extractChild_pieces:
  "extractChild c (Element t as acc) = Element t as (acc @ childPieces isSpan c)"
  by (simp add: extractChild_def childPieces_def isSpan_def spanPieces_def Let_def
      appendLines_joinWith del: tagName.simps)

lemma fold_extractChild:
  "fold extractChild cs (Element t as acc) = Element t as (acc @ concat (map (childPieces isSpan) cs))"
  by (induction cs arbitrary: acc) (simp_all add: extractChild_pieces)

lemma fold_pieces:
  "fold (\<lambda>c r. fold (\<lambda>p r'. appendChild r' p) (childPieces q c) r) cs (Element t as acc)
   = Element t as (acc @ concat (map (childPieces q) cs))"
  by (induction cs arbitrary: acc) (simp_all add: fold_appendChild)

lemma getCodeblockContents_pieces:
  "getCodeblockContents (Element t as cs) =
   concat (map (serialize t) (concat (map (childPieces isSpan) cs)))"
  by (simp add: getCodeblockContents_def fold_extractChild)

lemma extractContents_pieces:
  "extractContents q (Element t as cs) =
   concat (map (serialize t) (concat (map (childPieces q) cs)))"
  by (simp add: extractContents_def fold_pieces)

lemma getCodeblockContents_eq_amended:
  "getCodeblockContents codeEl = getCodeblockContents_amended codeEl"
proof (cases codeEl)
  case (Element t as cs)
  then show ?thesis
    by (simp only: getCodeblockContents_pieces getCodeblockContents_amended_def extractContents_pieces)
next
  case (Text d)
  then show ?thesis
    by (simp add: getCodeblockContents_def getCodeblockContents_amended_def extractContents_def)
next
  case (Comment d)
  then show ?thesis
    by (simp add: getCodeblockContents_def getCodeblockContents_amended_def extractContents_def)
qed

lemma split_no_sep: "sep \<notin> set x \<Longrightarrow> split sep x = [x]"
  by (induction x) auto

lemma split_append_sep: "sep \<notin> set x \<Longrightarrow> split sep (x @ sep # y) = x # split sep y"
  by (induction x) auto

lemma escapeAttribute_no_newline:
  "CHR 0x0A \<notin> set v \<Longrightarrow> CHR 0x0A \<notin> set (escapeAttribute v)"
  by (induction v) (auto simp: escapeAttribute_def)

lemma serializeAttributes_no_newline:
  "\<forall>(name, v) \<in> set as. CHR 0x0A \<notin> set name \<and> CHR 0x0A \<notin> set v \<Longrightarrow>
   CHR 0x0A \<notin> set (serializeAttributes as)"
  by (induction as) (auto simp: serializeAttributes_def escapeAttribute_no_newline)


lemma getCodeblockContents_append:
  "getCodeblockContents (Element t as (xs @ ys)) =
   getCodeblockContents (Element t as xs) @ getCodeblockContents (Element t as ys)"
  by (simp add: getCodeblockContents_pieces)

lemma getCodeblockContents_single:
  "getCodeblockContents (Element t as [c]) = concat (map (serialize t) (childPieces isSpan c))"
  by (simp add: getCodeblockContents_pieces)

lemma getCodeblockContents_insert:
  "getCodeblockContents (Element t as (xs @ c # ys)) =
   getCodeblockContents (Element t as xs) @ concat (map (serialize t) (childPieces isSpan c))
     @ getCodeblockContents (Element t as ys)"
  by (simp add: getCodeblockContents_pieces)

lemma serialize_newline_text: "serialize t (Text [CHR 0x0A]) = [CHR 0x0A]"
  by (simp add: escapeText_def)

lemma span_lines:
  assumes nl: "\<forall>(name, v) \<in> set sattrs. CHR 0x0A \<notin> set name \<and> CHR 0x0A \<notin> set v"
    and tc: "textContent (Element ''span'' sattrs kids) = ''a\<newline>b\<newline>c''"
  shows "extractedLines (getCodeblockContents (Element t as [Element ''span'' sattrs kids]))
         = [serialize t (Element ''span'' sattrs [Text ''a'']),
            serialize t (Element ''span'' sattrs [Text ''b'']),
            serialize t (Element ''span'' sattrs [Text ''c''])]"
proof -
  define el where "el = Element ''span'' sattrs kids"
  define tag where "tag = ''<span'' @ serializeAttributes sattrs @ ''>''"
  have sp: "isSpan el" "isElementNode el"
    by (simp_all add: el_def isSpan_def toUpperChar_def)
  have segs: "split (CHR 0x0A) (textContent el) = [''a'', ''b'', ''c'']"
    unfolding el_def tc by simp
  have pieces: "childPieces isSpan el =
      [Element ''span'' sattrs [Text ''a''], Text [CHR 0x0A],
       Element ''span'' sattrs [Text ''b''], Text [CHR 0x0A],
       Element ''span'' sattrs [Text ''c'']]"
    unfolding childPieces_def spanPieces_def segs using sp by (simp add: el_def)
  have ser: "\<And>x. serialize t (Element ''span'' sattrs [Text x]) = tag @ escapeText x @ ''</span>''"
    by (simp add: tag_def voidElements_def rawTextElements_def)
  have notag: "CHR 0x0A \<notin> set tag"
    using serializeAttributes_no_newline[OF nl] by (simp add: tag_def)
  have la: "CHR 0x0A \<notin> set (tag @ ''a</span>'')" and lb: "CHR 0x0A \<notin> set (tag @ ''b</span>'')"
    and lc: "CHR 0x0A \<notin> set (tag @ ''c</span>'')"
    using notag by simp_all
  have contents: "getCodeblockContents (Element t as [el]) =
      (tag @ ''a</span>'') @ CHR 0x0A # (tag @ ''b</span>'') @ CHR 0x0A # (tag @ ''c</span>'')"
    unfolding getCodeblockContents_single pieces
    by (simp add: ser serialize_newline_text escapeText_def del: serialize.simps)
  have "split (CHR 0x0A) (getCodeblockContents (Element t as [el])) =
      [tag @ ''a</span>'', tag @ ''b</span>'', tag @ ''c</span>'']"
    unfolding contents
    by (simp only: split_append_sep[OF la] split_append_sep[OF lb] split_no_sep[OF lc])
  moreover have "tag @ ''c</span>'' \<noteq> []" "tag @ ''c</span>'' \<noteq> ''</span>''"
    by (simp_all add: tag_def)
  ultimately have "extractedLines (getCodeblockContents (Element t as [el])) =
      [tag @ ''a</span>'', tag @ ''b</span>'', tag @ ''c</span>'']"
    by (simp add: extractedLines_def)
  then show ?thesis
    unfolding el_def by (simp add: ser escapeText_def del: serialize.simps)
qed


text \<open>
  Claim C2, as stated, speaks of every inline-element child and of any single inline
  element with the text \<open>a\<newline>b\<newline>c\<close>. The code splits only \<open>span\<close> elements: an \<open>em\<close>
  child is dropped, where the algorithm of the specification yields two wrapped lines.
  And the three lines depend on the attributes: a line break inside an attribute value is
  serialised as it is, so such a \<open>span\<close> splits into six pieces, none a balanced tag.
\<close>

theorem getCodeblockContents_inline_counterexample:
  "getCodeblockContents
     (Element ''code'' [] [Element ''em'' [] [Text ''a\<newline>b'']]) = []
   \<and> getCodeblockContents_spec
     (Element ''code'' [] [Element ''em'' [] [Text ''a\<newline>b'']]) = ''<em>a</em>\<newline><em>b</em>''
   \<and> length (extractedLines (getCodeblockContents
       (Element ''code'' [] [Element ''span'' [(''title'', ''x\<newline>y'')] [Text ''a\<newline>b\<newline>c'']])))
     = 6"
  by code_simp

text \<open>
  Claim C2, amended: for every \<open>span\<close> child of the code element the text content is
  split on newlines, each non-empty segment is wrapped in a shallow clone of that element
  (same tag and attributes, the segment as its only text) and a newline text node is
  appended between segments; non-element children are cloned verbatim (\<open>getCodeblockContents\<close>
  equals the algorithm of the specification restricted to \<open>span\<close>). Consequently a code
  element whose only child is a \<open>span\<close> with text \<open>a\<newline>b\<newline>c\<close>, and with no line
  break in its attribute names and values, splits into exactly three lines, each the
  complete serialisation of a \<open>span\<close> with the same attributes around one segment.
\<close>

theorem getCodeblockContents_span_lines:
  "getCodeblockContents codeEl = getCodeblockContents_amended codeEl
   \<and> ((\<forall>(name, v) \<in> set sattrs. CHR 0x0A \<notin> set name \<and> CHR 0x0A \<notin> set v)
        \<and> textContent (Element ''span'' sattrs kids) = ''a\<newline>b\<newline>c''
      \<longrightarrow> extractedLines (getCodeblockContents (Element t as [Element ''span'' sattrs kids]))
         = [serialize t (Element ''span'' sattrs [Text ''a'']),
            serialize t (Element ''span'' sattrs [Text ''b'']),
            serialize t (Element ''span'' sattrs [Text ''c''])])"
  using getCodeblockContents_eq_amended span_lines by blast

theorem getCodeblockContents_span_lines_witness:
  "CHR 0x0A \<notin> set ''class'' \<and> CHR 0x0A \<notin> set ''s''
   \<and> textContent (Element ''span'' [(''class'', ''s'')] [Text ''a\<newline>b\<newline>c'']) = ''a\<newline>b\<newline>c''
   \<and> extractedLines (getCodeblockContents
        (Element ''code'' [] [Element ''span'' [(''class'', ''s'')] [Text ''a\<newline>b\<newline>c'']]))
      = [''<span class='' @ [CHR 0x22] @ ''s'' @ [CHR 0x22] @ ''>a</span>'',
         ''<span class='' @ [CHR 0x22] @ ''s'' @ [CHR 0x22] @ ''>b</span>'',
         ''<span class='' @ [CHR 0x22] @ ''s'' @ [CHR 0x22] @ ''>c</span>'']"
  using getCodeblockContents_span_lines [of "Element ''code'' [] []" "[(''class'', ''s'')]"
      "[Text ''a\<newline>b\<newline>c'']" "''code''" "[]"]
  by (simp add: serializeAttributes_def escapeAttribute_def escapeText_def voidElements_def
      rawTextElements_def)

text \<open>
  Claim C10: a direct child of the code element that is an element but not a \<open>span\<close>
  contributes nothing to the extracted content, wherever it stands among the children;
  a \<open>span\<close> child contributes its per-line pieces; a non-element child contributes its own
  serialisation.
\<close>

theorem getCodeblockContents_child_contribution:
  "(isElementNode c \<and> tagName c \<noteq> Some ''SPAN'' \<longrightarrow>
      getCodeblockContents (Element t as (xs @ c # ys)) =
      getCodeblockContents (Element t as (xs @ ys)))
   \<and> (tagName c = Some ''SPAN'' \<longrightarrow>
      getCodeblockContents (Element t as (xs @ c # ys)) =
      getCodeblockContents (Element t as xs) @ concat (map (serialize t) (spanPieces c))
        @ getCodeblockContents (Element t as ys))
   \<and> (\<not> isElementNode c \<longrightarrow>
      getCodeblockContents (Element t as (xs @ c # ys)) =
      getCodeblockContents (Element t as xs) @ serialize t c
        @ getCodeblockContents (Element t as ys))"
proof (intro conjI impI)
  assume "isElementNode c \<and> tagName c \<noteq> Some ''SPAN''"
  then have "childPieces isSpan c = []"
    by (simp add: childPieces_def isSpan_def)
  then have "getCodeblockContents (Element t as (xs @ c # ys)) =
      getCodeblockContents (Element t as xs) @ getCodeblockContents (Element t as ys)"
    by (simp add: getCodeblockContents_insert)
  then show "getCodeblockContents (Element t as (xs @ c # ys)) =
      getCodeblockContents (Element t as (xs @ ys))"
    by (simp only: getCodeblockContents_append)
next
  assume "tagName c = Some ''SPAN''"
  then have "childPieces isSpan c = spanPieces c"
    by (cases c) (simp_all add: childPieces_def isSpan_def)
  then show "getCodeblockContents (Element t as (xs @ c # ys)) =
      getCodeblockContents (Element t as xs) @ concat (map (serialize t) (spanPieces c))
        @ getCodeblockContents (Element t as ys)"
    by (simp add: getCodeblockContents_insert)
next
  assume "\<not> isElementNode c"
  then have "childPieces isSpan c = [c]"
    by (simp add: childPieces_def)
  then show "getCodeblockContents (Element t as (xs @ c # ys)) =
      getCodeblockContents (Element t as xs) @ serialize t c
        @ getCodeblockContents (Element t as ys)"
    by (simp add: getCodeblockContents_insert)
qed


theorem getCodeblockContents_child_contribution_witness:
  "isElementNode (Element ''em'' [] [Text ''x'']) \<and> tagName (Element ''em'' [] [Text ''x'']) \<noteq> Some ''SPAN''
   \<and> getCodeblockContents (Element ''code'' [] ([Text ''a''] @ Element ''em'' [] [Text ''x''] # [Text ''b'']))
     = getCodeblockContents (Element ''code'' [] ([Text ''a''] @ [Text ''b'']))
   \<and> getCodeblockContents (Element ''code'' [] ([Text ''a''] @ [Text ''b''])) = ''ab''
   \<and> tagName (Element ''span'' [] [Text ''x'']) = Some ''SPAN''
   \<and> getCodeblockContents (Element ''code'' [] ([] @ Element ''span'' [] [Text ''x''] # [])) = ''<span>x</span>''
   \<and> \<not> isElementNode (Text ''x'')
   \<and> getCodeblockContents (Element ''code'' [] ([] @ Text ''x'' # [])) = ''x''"
  using getCodeblockContents_child_contribution [of "Element ''em'' [] [Text ''x'']" "''code''" "[]" "[Text ''a'']" "[Text ''b'']"]
    getCodeblockContents_child_contribution [of "Element ''span'' [] [Text ''x'']" "''code''" "[]" "[]" "[]"]
    getCodeblockContents_child_contribution [of "Text ''x''" "''code''" "[]" "[]" "[]"]
  by code_simp

section \<open>Properties of rendering, selection and copying\<close>

lemma split_nonempty: "split sep s \<noteq> []"
  by (induction s) (simp_all split: list.splits)

lemma extractedLines_empty: "extractedLines [] = []"
  by (simp add: extractedLines_def)

text \<open>
  Claim C9 says that a block with zero extractable lines is skipped: a warning, \<open>null\<close>,
  and no enhanced block with an empty table. In the code the test \<open>lines.length === 0\<close>
  stands before the last line is popped, and \<open>split\<close> never returns an empty array. So
  \<open>createEnhancedCodeBlock\<close> returns an element for every input, never the warning; and
  for the empty content (an empty \<open>pre\<close>) the one line is popped and the element is an
  enhanced block whose table has no rows.
\<close>

theorem createEnhancedCodeBlock_empty_content:
  "(\<exists>block. createEnhancedCodeBlock e n rawContent language ranges title anchorId showLineNumbers
        = Inr block)
   \<and> createEnhancedCodeBlock e n [] language ranges None None showLineNumbers =
       Inr (Element ''div''
              [(''id'', ''primer-spec-code-block-'' @ showNat n), (''class'', ''Box mt-3 text-mono'')]
              (jsxNull e @
               [Element ''div'' [(''class'', ''Box-body p-0 primer-spec-code-block-body'')]
                  (Element ''table'' [(''class'', ''highlight'')] [Element ''tbody'' [] []]
                   # jsxNull e)]))"
proof
  show "\<exists>block. createEnhancedCodeBlock e n rawContent language ranges title anchorId showLineNumbers
        = Inr block"
    by (simp add: createEnhancedCodeBlock_def split_nonempty Let_def)
  show "createEnhancedCodeBlock e n [] language ranges None None showLineNumbers =
       Inr (Element ''div''
              [(''id'', ''primer-spec-code-block-'' @ showNat n), (''class'', ''Box mt-3 text-mono'')]
              (jsxNull e @
               [Element ''div'' [(''class'', ''Box-body p-0 primer-spec-code-block-body'')]
                  (Element ''table'' [(''class'', ''highlight'')] [Element ''tbody'' [] []]
                   # jsxNull e)]))"
    by (simp add: createEnhancedCodeBlock_def extractedLines_empty genCodeBlockHeader_def
        jsxChild_def clsx_def Let_def)
qed

lemma selectLines_swap:
  "selectLines cid a b pg = selectLines cid (min a b) (max a b) pg"
  by (simp add: selectLines_def min_def max_def Let_def)

lemma precedes_snoc_Nil: "\<not> precedes (xs @ [x]) []"
  by (cases xs) simp_all

lemma setStart_createRange:
  "setStart createRange s 0 =
   \<lparr>startContainer = s, startOffset = 0, endContainer = s, endOffset = 0\<rparr>"
  by (cases s) (simp_all add: setStart_def createRange_def precedes_snoc_Nil)

lemma selectLines_found:
  assumes "getElementById (document pg) (cid @ ''-LC'' @ showNat (min a b)) = Some s"
    and "getElementById (document pg) (cid @ ''-LC'' @ showNat (max a b)) = Some e"
  shows "selectLines cid a b pg =
     pg\<lparr>selection := map_option
        (\<lambda>rs. [setEnd \<lparr>startContainer = s, startOffset = 0, endContainer = s, endOffset = 0\<rparr>
                  e (childCount (document pg) e)]) (selection pg)\<rparr>"
  unfolding selectLines_swap[of cid a b]
  using assms
  by (simp add: selectLines_def Let_def setStart_createRange addRange_def removeAllRanges_def)

lemma selectLines_missing:
  assumes "getElementById (document pg) (cid @ ''-LC'' @ showNat (min a b)) = None
     \<or> getElementById (document pg) (cid @ ''-LC'' @ showNat (max a b)) = None"
  shows "selectLines cid a b pg = pg\<lparr>console := console pg @ [selectLinesError]\<rparr>"
  unfolding selectLines_swap[of cid a b]
  using assms
  by (auto simp add: selectLines_def Let_def split: option.splits)

text \<open>
  Claim C6: \<open>selectLines(codeblockId, a, b)\<close> and \<open>selectLines(codeblockId, b, a)\<close> leave the
  same page, for every block id, every two line numbers and every page; and when both
  content cells are found, the cell of the lower line not after that of the higher line in
  the document, the selection is the one range from the start of the lower cell to the end
  of the higher cell.
\<close>

theorem selectLines_direction:
  "selectLines cid a b pg = selectLines cid b a pg
   \<and> (getElementById (document pg) (cid @ ''-LC'' @ showNat (min a b)) = Some s
      \<and> getElementById (document pg) (cid @ ''-LC'' @ showNat (max a b)) = Some e
      \<and> selection pg = Some rs
      \<and> precedes (s @ [0]) (e @ [childCount (document pg) e])
      \<longrightarrow> selection (selectLines cid a b pg) =
          Some [\<lparr>startContainer = s, startOffset = 0,
                 endContainer = e, endOffset = childCount (document pg) e\<rparr>])"
proof (intro conjI impI)
  have "selectLines cid a b pg = selectLines cid (min a b) (max a b) pg"
    by (rule selectLines_swap)
  also have "\<dots> = selectLines cid (min b a) (max b a) pg"
    by (simp add: min.commute max.commute)
  also have "\<dots> = selectLines cid b a pg"
    by (rule selectLines_swap[symmetric])
  finally show "selectLines cid a b pg = selectLines cid b a pg" .
next
  assume h: "getElementById (document pg) (cid @ ''-LC'' @ showNat (min a b)) = Some s
      \<and> getElementById (document pg) (cid @ ''-LC'' @ showNat (max a b)) = Some e
      \<and> selection pg = Some rs
      \<and> precedes (s @ [0]) (e @ [childCount (document pg) e])"
  then show "selection (selectLines cid a b pg) =
          Some [\<lparr>startContainer = s, startOffset = 0,
                 endContainer = e, endOffset = childCount (document pg) e\<rparr>]"
    by (simp add: selectLines_found[of pg cid a b s e] setEnd_def)
qed

text \<open>
  Claim C7: if the content cell of the start line or of the end line is not found by its
  id, \<open>selectLines\<close> writes its error to the console and leaves the selection and the
  document as they were; the selection is replaced (cleared, then the new range added)
  only when both cells were found, and then nothing is written to the console.
\<close>

theorem selectLines_atomic:
  "(getElementById (document pg) (cid @ ''-LC'' @ showNat (min a b)) = None
      \<or> getElementById (document pg) (cid @ ''-LC'' @ showNat (max a b)) = None
    \<longrightarrow> selection (selectLines cid a b pg) = selection pg
        \<and> document (selectLines cid a b pg) = document pg
        \<and> console (selectLines cid a b pg) = console pg @ [selectLinesError])
   \<and> (getElementById (document pg) (cid @ ''-LC'' @ showNat (min a b)) = Some s
      \<and> getElementById (document pg) (cid @ ''-LC'' @ showNat (max a b)) = Some e
    \<longrightarrow> console (selectLines cid a b pg) = console pg
        \<and> document (selectLines cid a b pg) = document pg
        \<and> selection (selectLines cid a b pg) =
            map_option (\<lambda>rs. [setEnd (setStart createRange s 0) e (childCount (document pg) e)])
              (selection pg))"
proof (intro conjI impI)
  assume "getElementById (document pg) (cid @ ''-LC'' @ showNat (min a b)) = None
      \<or> getElementById (document pg) (cid @ ''-LC'' @ showNat (max a b)) = None"
  then have eq: "selectLines cid a b pg = pg\<lparr>console := console pg @ [selectLinesError]\<rparr>"
    by (rule selectLines_missing)
  show "selection (selectLines cid a b pg) = selection pg" by (simp add: eq)
  show "document (selectLines cid a b pg) = document pg" by (simp add: eq)
  show "console (selectLines cid a b pg) = console pg @ [selectLinesError]" by (simp add: eq)
next
  assume "getElementById (document pg) (cid @ ''-LC'' @ showNat (min a b)) = Some s
      \<and> getElementById (document pg) (cid @ ''-LC'' @ showNat (max a b)) = Some e"
  then have eq: "selectLines cid a b pg =
     pg\<lparr>selection := map_option
        (\<lambda>rs. [setEnd \<lparr>startContainer = s, startOffset = 0, endContainer = s, endOffset = 0\<rparr>
                  e (childCount (document pg) e)]) (selection pg)\<rparr>"
    by (simp add: selectLines_found)
  show "console (selectLines cid a b pg) = console pg" by (simp add: eq)
  show "document (selectLines cid a b pg) = document pg" by (simp add: eq)
  show "selection (selectLines cid a b pg) =
            map_option (\<lambda>rs. [setEnd (setStart createRange s 0) e (childCount (document pg) e)])
              (selection pg)"
    by (simp add: eq setStart_createRange)
qed


theorem selectLines_direction_witness:
  "getElementById (document examplePage) (''b'' @ ''-LC'' @ showNat (min 2 1)) = Some [0, 0]
   \<and> getElementById (document examplePage) (''b'' @ ''-LC'' @ showNat (max 2 1)) = Some [0, 1]
   \<and> selection examplePage = Some []
   \<and> precedes ([0, 0] @ [0]) ([0, 1] @ [childCount (document examplePage) [0, 1]])
   \<and> selection (selectLines ''b'' 2 1 examplePage) =
          Some [\<lparr>startContainer = [0, 0], startOffset = 0, endContainer = [0, 1], endOffset = 2\<rparr>]
   \<and> selectLines ''b'' 2 1 examplePage = selectLines ''b'' 1 2 examplePage"
proof -
  have h1: "getElementById (document examplePage) (''b'' @ ''-LC'' @ showNat (min 2 1)) = Some [0, 0]"
    by code_simp
  have h2: "getElementById (document examplePage) (''b'' @ ''-LC'' @ showNat (max 2 1)) = Some [0, 1]"
    by code_simp
  have h3: "selection examplePage = Some []"
    by (simp add: examplePage_def)
  have h4: "precedes ([0, 0] @ [0]) ([0, 1] @ [childCount (document examplePage) [0, 1]])"
    by code_simp
  have h5: "childCount (document examplePage) [0, 1] = 2"
    by code_simp
  from selectLines_direction [of "''b''" 2 1 examplePage "[0, 0]" "[0, 1]" "[]"] h1 h2 h3 h4
  have "selection (selectLines ''b'' 2 1 examplePage) =
          Some [\<lparr>startContainer = [0, 0], startOffset = 0, endContainer = [0, 1],
                 endOffset = childCount (document examplePage) [0, 1]\<rparr>]"
    and "selectLines ''b'' 2 1 examplePage = selectLines ''b'' 1 2 examplePage"
    by blast+
  with h1 h2 h3 h4 h5 show ?thesis by simp
qed

theorem selectLines_atomic_witness:
  "getElementById (document examplePage) (''b'' @ ''-LC'' @ showNat (max 1 3)) = None
   \<and> selection (selectLines ''b'' 1 3 examplePage) = selection examplePage
   \<and> console (selectLines ''b'' 1 3 examplePage) = [selectLinesError]
   \<and> getElementById (document examplePage) (''b'' @ ''-LC'' @ showNat (min 1 2)) = Some [0, 0]
   \<and> getElementById (document examplePage) (''b'' @ ''-LC'' @ showNat (max 1 2)) = Some [0, 1]
   \<and> console (selectLines ''b'' 1 2 examplePage) = []"
proof -
  have h1: "getElementById (document examplePage) (''b'' @ ''-LC'' @ showNat (max 1 3)) = None"
    by code_simp
  have h2: "getElementById (document examplePage) (''b'' @ ''-LC'' @ showNat (min 1 2)) = Some [0, 0]"
    by code_simp
  have h3: "getElementById (document examplePage) (''b'' @ ''-LC'' @ showNat (max 1 2)) = Some [0, 1]"
    by code_simp
  have c: "console examplePage = []"
    by (simp add: examplePage_def)
  from selectLines_atomic [of examplePage "''b''" 1 3] h1
  have a: "selection (selectLines ''b'' 1 3 examplePage) = selection examplePage"
    and b: "console (selectLines ''b'' 1 3 examplePage) = console examplePage @ [selectLinesError]"
    by blast+
  from selectLines_atomic [of examplePage "''b''" 1 2 "[0, 0]" "[0, 1]"] h2 h3
  have d: "console (selectLines ''b'' 1 2 examplePage) = console examplePage"
    by blast
  from h1 h2 h3 a b d c show ?thesis by simp
qed

section \<open>Properties of copying and of the orchestrator\<close>

lemma descendants_append:
  "descendants (Element t as (xs @ ys)) = descendants (Element t as xs) @ descendants (Element t as ys)"
  by simp

lemma descendants_attrs: "descendants (Element t as cs) = descendants (Element t' as' cs)"
  by simp

lemma querySelector_attrs:
  "querySelector (Element t as cs) s = querySelector (Element t' as' cs) s"
  by (simp add: querySelector_def)

lemma find_append:
  "find P (xs @ ys) = (case find P xs of None \<Rightarrow> find P ys | Some x \<Rightarrow> Some x)"
  by (induction xs) simp_all

lemma excludePrompt_prompt:
  assumes "startsWithPrompt kids"
  shows "excludePrompt LC (Element ''td'' [(''id'', LC0), (''class'', c)] kids) =
     Element ''td'' [(''id'', []), (''class'', c)]
       [Element ''span'' [(''class'', ''primer-spec-code-block-non-selectable'')]
          (takeWhile isPromptOrWhitespace kids),
        Element ''span'' [(''id'', LC)] (dropWhile isPromptOrWhitespace kids)]"
proof -
  from assms obtain k r where k: "kids = k # r" "tagName k = Some ''SPAN''" "classListContains k ''gp''"
    by (auto simp: startsWithPrompt_def split: list.splits)
  show ?thesis
    unfolding excludePrompt_def
    using k by (simp add: Let_def)
qed

lemma excludePrompt_no_prompt:
  assumes "\<not> startsWithPrompt kids"
  shows "excludePrompt LC (Element t as kids) = Element t as kids"
  using assms
  by (auto simp: excludePrompt_def startsWithPrompt_def split: list.splits)

lemma lineCodeCell_prompt:
  assumes "startsWithPrompt (parseHTML e line)"
  shows "\<exists>c. lineCodeCell e cid (Some LANGUAGE_CONSOLE) line k hl =
     Element ''td'' [(''id'', []), (''class'', c)]
       [Element ''span'' [(''class'', ''primer-spec-code-block-non-selectable'')]
          (takeWhile isPromptOrWhitespace (parseHTML e line)),
        Element ''span'' [(''id'', cid @ ''-LC'' @ showNat k)]
          (dropWhile isPromptOrWhitespace (parseHTML e line))]"
  using assms by (simp add: lineCodeCell_def Let_def excludePrompt_prompt)

lemma lineCodeCell_no_prompt:
  assumes "\<not> startsWithPrompt (parseHTML e line)"
  shows "\<exists>as. lineCodeCell e cid language line k hl = Element ''td'' as (parseHTML e line)"
  using assms by (simp add: lineCodeCell_def Let_def excludePrompt_no_prompt)

lemma nonselectable_not_go:
  "\<not> matches (Element ''span'' [(''class'', ''primer-spec-code-block-non-selectable'')] cs)
       (ClassSel ''go'')"
proof -
  have "classList (Element ''span'' [(''class'', ''primer-spec-code-block-non-selectable'')] cs)
      = classList (Element ''span'' [(''class'', ''primer-spec-code-block-non-selectable'')] [])"
    by (simp only: classList_def getAttribute.simps)
  also have "\<dots> = [''primer-spec-code-block-non-selectable'']"
    by code_simp
  finally show ?thesis
    by (simp add: classListContains_def)
qed

lemma wrapper_not_go: "\<not> matches (Element ''span'' [(''id'', i)] cs) (ClassSel ''go'')"
  by (simp add: classListContains_def classList_def)

lemma querySelector_restructured:
  "querySelector
     (Element t as [Element ''span'' [(''class'', ''primer-spec-code-block-non-selectable'')] ex,
                    Element ''span'' [(''id'', i)] inc]) (ClassSel ''go'')
   = querySelector (Element t' as' (ex @ inc)) (ClassSel ''go'')"
  using nonselectable_not_go[of ex] wrapper_not_go[of i inc]
  by (simp add: querySelector_def find_append del: matches.simps split: option.splits)

lemma console_output_line:
  assumes "querySelector (Element ''td'' [] (parseHTML e line)) (ClassSel ''go'') \<noteq> None"
  shows "CONSOLE_COPY_LINES_MAP_FN (lineCodeCell e cid (Some LANGUAGE_CONSOLE) line k hl) k cb = None"
proof -
  have "querySelector (lineCodeCell e cid (Some LANGUAGE_CONSOLE) line k hl) (ClassSel ''go'')
        = querySelector (Element ''td'' [] (parseHTML e line)) (ClassSel ''go'')"
  proof (cases "startsWithPrompt (parseHTML e line)")
    case True
    from lineCodeCell_prompt[OF True, of cid k hl] obtain c where
      "lineCodeCell e cid (Some LANGUAGE_CONSOLE) line k hl =
        Element ''td'' [(''id'', []), (''class'', c)]
       [Element ''span'' [(''class'', ''primer-spec-code-block-non-selectable'')]
          (takeWhile isPromptOrWhitespace (parseHTML e line)),
        Element ''span'' [(''id'', cid @ ''-LC'' @ showNat k)]
          (dropWhile isPromptOrWhitespace (parseHTML e line))]" by blast
    then show ?thesis
      by (simp only: querySelector_restructured[where t'="''td''" and as'="[]"] takeWhile_dropWhile_id)
  next
    case False
    from lineCodeCell_no_prompt[OF False, of cid "Some LANGUAGE_CONSOLE" k hl] obtain as where
      "lineCodeCell e cid (Some LANGUAGE_CONSOLE) line k hl = Element ''td'' as (parseHTML e line)"
      by blast
    then show ?thesis
      by (simp only: querySelector_attrs[of "''td''" as _ _ "''td''" "[]"])
  qed
  with assms show ?thesis
    by (auto simp: CONSOLE_COPY_LINES_MAP_FN_def split: option.splits)
qed

lemma console_prompt_line:
  assumes p: "startsWithPrompt (parseHTML e line)"
    and go: "querySelector (Element ''td'' [] (parseHTML e line)) (ClassSel ''go'') = None"
    and ids: "querySelector (Element ''td'' [] (takeWhile isPromptOrWhitespace (parseHTML e line)))
               (IdSel (cid @ ''-LC'' @ showNat k)) = None"
    and cb: "elementId cb = cid"
  shows "CONSOLE_COPY_LINES_MAP_FN (lineCodeCell e cid (Some LANGUAGE_CONSOLE) line k hl) k cb =
     Some (innerText (Element ''span'' [(''id'', cid @ ''-LC'' @ showNat k)]
                        (dropWhile isPromptOrWhitespace (parseHTML e line))))"
proof -
  define LC where "LC = cid @ ''-LC'' @ showNat k"
  define ex where "ex = takeWhile isPromptOrWhitespace (parseHTML e line)"
  define inc where "inc = dropWhile isPromptOrWhitespace (parseHTML e line)"
  from lineCodeCell_prompt[OF p, of cid k hl] obtain c where
    cell: "lineCodeCell e cid (Some LANGUAGE_CONSOLE) line k hl =
        Element ''td'' [(''id'', []), (''class'', c)]
       [Element ''span'' [(''class'', ''primer-spec-code-block-non-selectable'')] ex,
        Element ''span'' [(''id'', LC)] inc]"
    unfolding LC_def ex_def inc_def by blast
  have kids: "ex @ inc = parseHTML e line"
    by (simp add: ex_def inc_def)
  have g: "querySelector (lineCodeCell e cid (Some LANGUAGE_CONSOLE) line k hl) (ClassSel ''go'') = None"
    unfolding cell querySelector_restructured[where t'="''td''" and as'="[]"] kids by (rule go)
  have noid: "find (\<lambda>d. matches d (IdSel LC)) (descendants (Element ''td'' [] ex)) = None"
    using ids unfolding querySelector_def LC_def ex_def .
  have i: "querySelector (lineCodeCell e cid (Some LANGUAGE_CONSOLE) line k hl) (IdSel LC)
        = Some (Element ''span'' [(''id'', LC)] inc)"
    unfolding cell querySelector_def using noid by (simp add: find_append)
  show ?thesis
    using g i cb by (simp add: CONSOLE_COPY_LINES_MAP_FN_def LC_def inc_def)
qed

lemma console_plain_line:
  assumes p: "\<not> startsWithPrompt (parseHTML e line)"
    and go: "querySelector (Element ''td'' [] (parseHTML e line)) (ClassSel ''go'') = None"
    and ids: "querySelector (Element ''td'' [] (parseHTML e line))
               (IdSel (elementId cb @ ''-LC'' @ showNat k)) = None"
  shows "CONSOLE_COPY_LINES_MAP_FN (lineCodeCell e cid (Some LANGUAGE_CONSOLE) line k hl) k cb = None"
proof -
  from lineCodeCell_no_prompt[OF p, of cid "Some LANGUAGE_CONSOLE" k hl] obtain as where
    cell: "lineCodeCell e cid (Some LANGUAGE_CONSOLE) line k hl = Element ''td'' as (parseHTML e line)"
    by blast
  have "\<And>s. querySelector (Element ''td'' as (parseHTML e line)) s
           = querySelector (Element ''td'' [] (parseHTML e line)) s"
    by (rule querySelector_attrs)
  then show ?thesis
    using go ids by (simp add: CONSOLE_COPY_LINES_MAP_FN_def cell)
qed

lemma copyLines_join:
  "copyLines codeblock mapFn =
   joinWith [CHR 0x0A] (filter (\<lambda>s. s \<noteq> [])
     (map (\<lambda>(line, i). case mapFn line (i + 1) codeblock of Some s \<Rightarrow> s | None \<Rightarrow> [])
        (zip (filter (\<lambda>d. matches d (ClassSel CODEBLOCK_LINE_CLASS)) (descendants codeblock))
             [0..<length (filter (\<lambda>d. matches d (ClassSel CODEBLOCK_LINE_CLASS)) (descendants codeblock))])))"
proof -
  have "\<And>xs :: string option list.
     map (\<lambda>r. case r of Some s \<Rightarrow> s | None \<Rightarrow> []) (filter (\<lambda>r. r \<noteq> None \<and> r \<noteq> Some []) xs)
     = filter (\<lambda>s. s \<noteq> []) (map (\<lambda>r. case r of Some s \<Rightarrow> s | None \<Rightarrow> []) xs)"
    subgoal for xs by (induction xs) (auto split: option.splits)
    done
  then show ?thesis
    by (simp add: copyLines_def Let_def comp_def case_prod_unfold)
qed


text \<open>
  Claim C4 says that copying a console block leaves out the output lines and the prompts,
  and that every line without an output element contributes its visible text. The comment
  in \<open>CONSOLE_COPY_LINES_MAP_FN\<close> says the same ("If there's a console prompt, skip it"),
  and the button is labelled "Copy all commands". The function looks for the element with
  the id of the line among the descendants of the content cell; \<open>createCodeBlockLine\<close>
  moves that id to an inner wrapper only when the line starts with a prompt, and a line
  without a prompt keeps it on the cell itself, which is no descendant of itself. So a
  command that continues on a second line loses that line: for \<open>$ ls\<close> with a backslash
  at the end of the line, then \<open>-l\<close>, the lines are cut as expected, the second has no
  output element and the visible text \<open>-l\<close>, the console function gives nothing for it,
  and the copied text is \<open>ls\<close> with the backslash alone, where the default function
  copies both lines. The example of the claim, with a prompt on both command lines, is
  copied as \<open>ls\<newline>pwd\<close>.
\<close>

theorem console_copy_drops_promptless_line:
  "extractedLines (getCodeblockContents continuationExample) = [continuedLine, ''-l'']
   \<and> querySelector
         (lineCodeCell continuationEnv ''primer-spec-code-block-0'' (Some LANGUAGE_CONSOLE) ''-l'' 2 False)
         (ClassSel ''go'') = None
   \<and> innerText
         (lineCodeCell continuationEnv ''primer-spec-code-block-0'' (Some LANGUAGE_CONSOLE) ''-l'' 2 False)
       = ''-l''
   \<and> CONSOLE_COPY_LINES_MAP_FN
         (lineCodeCell continuationEnv ''primer-spec-code-block-0'' (Some LANGUAGE_CONSOLE) ''-l'' 2 False)
         2 exampleBlockRoot = None
   \<and> map_sum id (\<lambda>block. copyLines block CONSOLE_COPY_LINES_MAP_FN)
         (createEnhancedCodeBlock continuationEnv 0 (getCodeblockContents continuationExample)
            (Some ''console'') None None None True)
       = Inr (''ls '' @ [CHR 0x5C])
   \<and> map_sum id (\<lambda>block. copyLines block DEFAULT_COPY_LINES_MAP_FN)
         (createEnhancedCodeBlock continuationEnv 0 (getCodeblockContents continuationExample)
            (Some ''console'') None None None True)
       = Inr (''$ ls '' @ [CHR 0x5C] @ ''\<newline>-l'')
   \<and> map_sum id (\<lambda>block. copyLines block CONSOLE_COPY_LINES_MAP_FN)
         (createEnhancedCodeBlock exampleEnv 0 (getCodeblockContents consoleExample)
            (Some ''console'') None None None True)
       = Inr ''ls\<newline>pwd''"
  by code_simp


text \<open>
  Claim C8 says that the ids of the enhanced blocks run from 0 without a gap. The counter
  is incremented before the checks that may skip a block, so a wrapper with a malformed
  structure takes an id and leaves the document as it is. In the second example document
  the first wrapper is malformed: one warning is written, the two enhanced blocks get the
  ids 1 and 2, no element gets the id 0, and the counter ends at 3 (whichever way the JSX
  library renders a \<open>null\<close> child).
\<close>

theorem enhanced_ids_skip_malformed:
  "map_sum id (\<lambda>(d, w, n).
           (getElementById d ''primer-spec-code-block-0'',
            getElementById d ''primer-spec-code-block-1'',
            getElementById d ''primer-spec-code-block-2'', length w, n))
         (useEnhancedCodeBlocks exampleEnv (Some exampleMain) malformedExample)
       = Inr (None, Some [0, 0, 0, 1, 0], Some [0, 0, 0, 2, 0], 1, 3)
   \<and> map_sum id (\<lambda>(d, w, n).
           (getElementById d ''primer-spec-code-block-0'',
            getElementById d ''primer-spec-code-block-1'',
            getElementById d ''primer-spec-code-block-2'', length w, n))
         (useEnhancedCodeBlocks (exampleEnv\<lparr>jsxNull := []\<rparr>) (Some exampleMain) malformedExample)
       = Inr (None, Some [0, 0, 0, 1, 0], Some [0, 0, 0, 2, 0], 1, 3)"
  by code_simp

text \<open>
  Claim C3 says that a second run of the hook over the same root changes nothing. Only a
  block that is retained as legacy gets the processed marker; an enhanced block does not,
  nor does a wrapper that was skipped as malformed. In the first example document the
  first run skips the malformed wrapper and enhances the \<open>pre\<close> inside it. In the second
  run the wrapper is still a candidate, and now the three-level descent from it ends inside
  the enhanced block, at its body: the whole wrapper is replaced by a block made from the
  body, and the code text is gone (whichever way the JSX library renders a \<open>null\<close> child).
\<close>

theorem enhance_twice_changes_document:
  "Option.bind (enhance exampleEnv nestedExample) (enhance exampleEnv)
       \<noteq> enhance exampleEnv nestedExample
   \<and> map_option textContent (enhance exampleEnv nestedExample) = Some ''code''
   \<and> map_option textContent (Option.bind (enhance exampleEnv nestedExample) (enhance exampleEnv))
       = Some []
   \<and> Option.bind (enhance (exampleEnv\<lparr>jsxNull := []\<rparr>) nestedExample)
         (enhance (exampleEnv\<lparr>jsxNull := []\<rparr>))
       \<noteq> enhance (exampleEnv\<lparr>jsxNull := []\<rparr>) nestedExample
   \<and> map_option textContent (enhance (exampleEnv\<lparr>jsxNull := []\<rparr>) nestedExample) = Some ''code''
   \<and> map_option textContent
         (Option.bind (enhance (exampleEnv\<lparr>jsxNull := []\<rparr>) nestedExample)
            (enhance (exampleEnv\<lparr>jsxNull := []\<rparr>)))
       = Some []"
  by code_simp

end
